theory Spec2Isabelle
  imports Complex_Main "HOL-Library.Sublist"
begin

section \<open>Python values\<close>

text \<open>
  The values the CVM provider passes around: \<open>None\<close>, booleans, unbounded integers,
  floats, strings and dates.  A finite float is the rational number it stands for
  (every binary64 value is one); the sign of zero is not kept.  Strings are lists of
  8-bit characters.
\<close>

datatype pyfloat = Fin rat | PosInf | NegInf | NaN

datatype pyval =
  PNone | PBool bool | PInt int | PFloat pyfloat | PStr string
  | PDate nat nat nat  \<comment> \<open>\<open>datetime.date(year, month, day)\<close>\<close>

datatype py_error =
  IndexError | TypeError | ValueError | AttributeError | KeyError | OverflowError
  | URLError | BadZipFile | OSError
  | NotModelled  \<comment> \<open>not a Python exception: an input outside this model (see \<open>py_str\<close>)\<close>

text \<open>Python truthiness (\<open>bool(x)\<close>): NaN and the infinities are truthy.\<close>

fun truthy :: "pyval \<Rightarrow> bool" where
  "truthy PNone = False"
| "truthy (PBool b) = b"
| "truthy (PInt i) = (i \<noteq> 0)"
| "truthy (PFloat (Fin r)) = (r \<noteq> 0)"
| "truthy (PFloat _) = True"
| "truthy (PStr s) = (s \<noteq> [])"
| "truthy (PDate y m d) = True"

text \<open>\<open>a or b\<close>: the first operand when it is truthy, else the second.\<close>

definition py_or :: "pyval \<Rightarrow> pyval \<Rightarrow> pyval" where
  "py_or a b = (if truthy a then a else b)"

section \<open>Small helpers of the CVM module\<close>

text \<open>
  \<^verbatim>\<open>return x[y] if len(x) > y else z or None\<close>

  The conditional expression binds weaker than \<open>or\<close>, so the else-branch is
  \<open>(z or None)\<close>.  A negative \<open>y\<close> passes the length test and indexes from the end;
  below \<open>-len(x)\<close> the subscription raises IndexError.
\<close>

definition get_value_by_index_if_exists :: "pyval list \<Rightarrow> int \<Rightarrow> pyval \<Rightarrow> py_error + pyval" where
  "get_value_by_index_if_exists x y z =
     (if int (length x) > y
      then (if 0 \<le> y then Inr (x ! nat y)
            else if 0 \<le> int (length x) + y then Inr (x ! nat (int (length x) + y))
            else Inl IndexError)
      else Inr (py_or z PNone))"

section \<open>Strings\<close>

text \<open>\<open>old in x\<close>: \<open>old\<close> occurs in \<open>x\<close> as a contiguous substring.\<close>

fun str_in :: "string \<Rightarrow> string \<Rightarrow> bool" where
  "str_in old [] = (old = [])"
| "str_in old (c # cs) = (prefix old (c # cs) \<or> str_in old cs)"

text \<open>
  \<open>x.replace(old, new)\<close> for a non-empty \<open>old\<close>: one scan from the left, every
  occurrence found is replaced and the scan resumes after it, so occurrences do not
  overlap and the inserted text is never rescanned.
\<close>

fun replace_scan :: "string \<Rightarrow> string \<Rightarrow> string \<Rightarrow> string" where
  "replace_scan [] old new = []"
| "replace_scan (c # cs) old new =
     (if prefix old (c # cs) then new @ replace_scan (drop (length old - 1) cs) old new
      else c # replace_scan cs old new)"

text \<open>
  \<open>str.replace\<close>: with an empty \<open>old\<close> Python inserts \<open>new\<close> before every character
  and at the end.
\<close>

definition py_replace :: "string \<Rightarrow> string \<Rightarrow> string \<Rightarrow> string" where
  "py_replace x old new =
     (if old = [] then new @ concat (map (\<lambda>c. c # new) x) else replace_scan x old new)"

text \<open>
  \<^verbatim>\<open>
  def _replace_all(x, old, new):
      while old in x:
          x = x.replace(old, new)
      return x
  \<close>
  The loop may run forever; not returning is the value \<open>None\<close>.
\<close>

partial_function (option) replace_all :: "string \<Rightarrow> string \<Rightarrow> string \<Rightarrow> string option" where
  "replace_all x old new =
     (if str_in old x then replace_all (py_replace x old new) old new else Some x)"

text \<open>\<open>s.split(c)\<close> for a separator of one character, and \<open>sep.join(parts)\<close>.\<close>

fun split_on :: "char \<Rightarrow> string \<Rightarrow> string list" where
  "split_on c [] = [[]]"
| "split_on c (x # xs) =
     (if x = c then [] # split_on c xs
      else (case split_on c xs of h # t \<Rightarrow> (x # h) # t | [] \<Rightarrow> [[x]]))"

fun join :: "string \<Rightarrow> string list \<Rightarrow> string" where
  "join sep [] = []"
| "join sep [x] = x"
| "join sep (x # y # ys) = x @ sep @ join sep (y # ys)"

text \<open>
  The order of two texts, in SQLite (\<open>memcmp\<close>) as in Python: character by character,
  a proper prefix first.
\<close>

fun str_less :: "string \<Rightarrow> string \<Rightarrow> bool" where
  "str_less [] [] = False"
| "str_less [] (y # ys) = True"
| "str_less (x # xs) [] = False"
| "str_less (x # xs) (y # ys) =
     ((of_char x :: nat) < of_char y \<or> (x = y \<and> str_less xs ys))"

section \<open>Character and number helpers\<close>

definition upper_char :: "char \<Rightarrow> char" where
  "upper_char c =
     (case map_of (zip ''abcdefghijklmnopqrstuvwxyz'' ''ABCDEFGHIJKLMNOPQRSTUVWXYZ'') c of
        Some u \<Rightarrow> u | None \<Rightarrow> c)"

definition lower_char :: "char \<Rightarrow> char" where
  "lower_char c =
     (case map_of (zip ''ABCDEFGHIJKLMNOPQRSTUVWXYZ'' ''abcdefghijklmnopqrstuvwxyz'') c of
        Some u \<Rightarrow> u | None \<Rightarrow> c)"

text \<open>\<open>s.upper()\<close> and \<open>s.lower()\<close>, on the ASCII letters.\<close>

definition upper :: "string \<Rightarrow> string" where
  "upper s = map upper_char s"

definition lower :: "string \<Rightarrow> string" where
  "lower s = map lower_char s"

definition is_digit :: "char \<Rightarrow> bool" where
  "is_digit c = (c \<in> set ''0123456789'')"

definition digit_val :: "char \<Rightarrow> nat" where
  "digit_val c =
     (case map_of (zip ''0123456789'' [0, 1, 2, 3, 4, 5, 6, 7, 8, 9]) c of
        Some d \<Rightarrow> d | None \<Rightarrow> 0)"

definition digits_value :: "nat list \<Rightarrow> nat" where
  "digits_value ds = foldl (\<lambda>a d. 10 * a + d) 0 ds"

text \<open>\<open>str(n)\<close> for a natural number and for an integer.\<close>

fun str_nat :: "nat \<Rightarrow> string" where
  "str_nat n =
     (if n < 10 then [''0123456789'' ! n]
      else str_nat (n div 10) @ [''0123456789'' ! (n mod 10)])"

declare str_nat.simps [simp del]

definition str_int :: "int \<Rightarrow> string" where
  "str_int i = (if i < 0 then CHR ''-'' # str_nat (nat (- i)) else str_nat (nat i))"

text \<open>\<open>s.zfill(w)\<close> for a string of digits without sign.\<close>

definition zfill :: "nat \<Rightarrow> string \<Rightarrow> string" where
  "zfill w s = replicate (w - length s) (CHR ''0'') @ s"

text \<open>
  \<open>str(x)\<close>.  The shortest round-tripping decimal form that Python prints for a finite
  float depends on binary64 rounding and is not modelled: that case is \<open>None\<close>, and
  a caller that needs it answers \<open>NotModelled\<close>.
\<close>

fun py_str :: "pyval \<Rightarrow> string option" where
  "py_str PNone = Some ''None''"
| "py_str (PBool b) = Some (if b then ''True'' else ''False'')"
| "py_str (PInt i) = Some (str_int i)"
| "py_str (PStr s) = Some s"
| "py_str (PDate y m d) =
     Some (zfill 4 (str_nat y) @ ''-'' @ zfill 2 (str_nat m) @ ''-'' @ zfill 2 (str_nat d))"
| "py_str (PFloat NaN) = Some ''nan''"
| "py_str (PFloat PosInf) = Some ''inf''"
| "py_str (PFloat NegInf) = Some ''-inf''"
| "py_str (PFloat (Fin r)) = None"

section \<open>Converters\<close>

text \<open>
  \<open>pd.isna(x)\<close> on a scalar: true of \<open>None\<close> and of NaN.
\<close>

definition isna :: "pyval \<Rightarrow> bool" where
  "isna x = (x = PNone \<or> x = PFloat NaN)"

text \<open>
  \<^verbatim>\<open>return not x or pd.isna(x) or len(str(x)) == 0\<close>

  \<open>str(x)\<close> is empty only for the empty string: every other value prints at least
  one character.
\<close>

definition str_is_empty :: "pyval \<Rightarrow> bool" where
  "str_is_empty x = (case x of PStr s \<Rightarrow> length s = 0 | _ \<Rightarrow> False)"

definition is_nan_or_empty :: "pyval \<Rightarrow> bool" where
  "is_nan_or_empty x = (\<not> truthy x \<or> isna x \<or> str_is_empty x)"

text \<open>
  \<^verbatim>\<open>
  def as_boolean(x):
      if is_nan_or_empty(x): return False
      else: return str(x).upper() in ('S', 'Y', '1')
  \<close>
  The text of a float always holds a point, an exponent or letters (\<open>inf\<close>, \<open>nan\<close>),
  so it is none of the three.
\<close>

definition as_boolean :: "pyval \<Rightarrow> py_error + pyval" where
  "as_boolean x =
     (if is_nan_or_empty x then Inr (PBool False)
      else case py_str x of
             Some s \<Rightarrow> Inr (PBool (upper s \<in> set [''S'', ''Y'', ''1'']))
           | None \<Rightarrow> Inr (PBool False))"

subsection \<open>\<open>datetime.strptime(x, '%Y-%m-%d').date()\<close>\<close>

text \<open>
  The format compiles to the regular expression
  \<^verbatim>\<open>(\d\d\d\d)-(1[0-2]|0[1-9]|[1-9])-(3[01]|[12]\d|0[1-9]|[1-9]| [1-9])\<close>
  which must match at the start and consume the whole string.  The alternatives are
  tried in this order.
\<close>

definition parse_month :: "string \<Rightarrow> (nat \<times> string) option" where
  "parse_month s =
     (case s of
        a # b # r \<Rightarrow>
          if a = CHR ''1'' \<and> b \<in> set ''012'' then Some (10 + digit_val b, r)
          else if a = CHR ''0'' \<and> b \<in> set ''123456789'' then Some (digit_val b, r)
          else if a \<in> set ''123456789'' then Some (digit_val a, b # r)
          else None
      | [a] \<Rightarrow> if a \<in> set ''123456789'' then Some (digit_val a, []) else None
      | [] \<Rightarrow> None)"

definition parse_day :: "string \<Rightarrow> (nat \<times> string) option" where
  "parse_day s =
     (case s of
        a # b # r \<Rightarrow>
          if a = CHR ''3'' \<and> b \<in> set ''01'' then Some (30 + digit_val b, r)
          else if a \<in> set ''12'' \<and> is_digit b then Some (10 * digit_val a + digit_val b, r)
          else if a = CHR ''0'' \<and> b \<in> set ''123456789'' then Some (digit_val b, r)
          else if a \<in> set ''123456789'' then Some (digit_val a, b # r)
          else if a = CHR '' '' \<and> b \<in> set ''123456789'' then Some (digit_val b, r)
          else None
      | [a] \<Rightarrow> if a \<in> set ''123456789'' then Some (digit_val a, []) else None
      | [] \<Rightarrow> None)"

definition is_leap :: "nat \<Rightarrow> bool" where
  "is_leap y = (y mod 4 = 0 \<and> (y mod 100 \<noteq> 0 \<or> y mod 400 = 0))"

definition days_in_month :: "nat \<Rightarrow> nat \<Rightarrow> nat" where
  "days_in_month y m =
     (if m = 2 then (if is_leap y then 29 else 28)
      else if m \<in> set [4, 6, 9, 11] then 30 else 31)"

definition strptime_ymd :: "pyval \<Rightarrow> py_error + pyval" where
  "strptime_ymd x =
     (case x of
        PStr s \<Rightarrow>
          (case s of
             y1 # y2 # y3 # y4 # dash # r \<Rightarrow>
               if list_all is_digit [y1, y2, y3, y4] \<and> dash = CHR ''-'' then
                 (case parse_month r of
                    Some (m, CHR ''-'' # r') \<Rightarrow>
                      (case parse_day r' of
                         Some (d, []) \<Rightarrow>
                           (let y = digits_value (map digit_val [y1, y2, y3, y4]) in
                            if 1 \<le> y \<and> d \<le> days_in_month y m then Inr (PDate y m d)
                            else Inl ValueError)
                       | _ \<Rightarrow> Inl ValueError)
                  | _ \<Rightarrow> Inl ValueError)
               else Inl ValueError
           | _ \<Rightarrow> Inl ValueError)
      | _ \<Rightarrow> Inl TypeError)"

text \<open>
  \<^verbatim>\<open>
  def as_date(x):
      if is_nan_or_empty(x): return None
      else: return datetime.strptime(x, '%Y-%m-%d').date()
  \<close>
\<close>

definition as_date :: "pyval \<Rightarrow> py_error + pyval" where
  "as_date x = (if is_nan_or_empty x then Inr PNone else strptime_ymd x)"

subsection \<open>\<open>float(s)\<close> and \<open>int(f)\<close>\<close>

text \<open>
  \<open>float\<close> of a string strips white space (blank, tab, line feed, vertical tab, form
  feed, carriage return and, above 127, next line and no-break space), then reads
  \<^verbatim>\<open>[sign] (floatnumber | "inf" | "infinity" | "nan")\<close> (letters in either case) with
  \<^verbatim>\<open>
  digitpart   ::= digit (["_"] digit)*
  number      ::= [digitpart] "." digitpart | digitpart ["."]
  floatnumber ::= number [("e" | "E") ["+" | "-"] digitpart]
  \<close>
  and raises ValueError on anything else.
\<close>

definition is_space :: "char \<Rightarrow> bool" where
  "is_space c =
     (c \<in> set [CHR '' '', CHR 0x09, CHR 0x0A, CHR 0x0B, CHR 0x0C, CHR 0x0D,
                CHR 0x85, CHR 0xA0])"

definition strip :: "string \<Rightarrow> string" where
  "strip s = rev (dropWhile is_space (rev (dropWhile is_space s)))"

fun digits_tail :: "string \<Rightarrow> nat list \<times> string" where
  "digits_tail [] = ([], [])"
| "digits_tail [c] = (if is_digit c then ([digit_val c], []) else ([], [c]))"
| "digits_tail (c # d # cs) =
     (if is_digit c then (case digits_tail (d # cs) of (ds, r) \<Rightarrow> (digit_val c # ds, r))
      else if c = CHR ''_'' \<and> is_digit d
        then (case digits_tail cs of (ds, r) \<Rightarrow> (digit_val d # ds, r))
      else ([], c # d # cs))"

definition digitpart :: "string \<Rightarrow> (nat list \<times> string) option" where
  "digitpart s =
     (case s of
        [] \<Rightarrow> None
      | c # cs \<Rightarrow>
          if is_digit c then (case digits_tail cs of (ds, r) \<Rightarrow> Some (digit_val c # ds, r))
          else None)"

text \<open>The integer digits, the fraction digits and what follows the number.\<close>

definition parse_number :: "string \<Rightarrow> (nat list \<times> nat list \<times> string) option" where
  "parse_number s =
     (case digitpart s of
        Some (ip, r) \<Rightarrow>
          (case r of
             CHR ''.'' # r' \<Rightarrow>
               (case digitpart r' of
                  Some (fp, r'') \<Rightarrow> Some (ip, fp, r'')
                | None \<Rightarrow> Some (ip, [], r'))
           | _ \<Rightarrow> Some (ip, [], r))
      | None \<Rightarrow>
          (case s of
             CHR ''.'' # r' \<Rightarrow>
               (case digitpart r' of
                  Some (fp, r'') \<Rightarrow> Some ([], fp, r'')
                | None \<Rightarrow> None)
           | _ \<Rightarrow> None))"

text \<open>The exponent, which must reach the end of the string.\<close>

definition parse_exponent :: "string \<Rightarrow> int option" where
  "parse_exponent r =
     (case r of
        [] \<Rightarrow> Some 0
      | e # r' \<Rightarrow>
          if e = CHR ''e'' \<or> e = CHR ''E'' then
            (case r' of
               CHR ''-'' # r'' \<Rightarrow>
                 (case digitpart r'' of
                    Some (ds, []) \<Rightarrow> Some (- int (digits_value ds)) | _ \<Rightarrow> None)
             | CHR ''+'' # r'' \<Rightarrow>
                 (case digitpart r'' of
                    Some (ds, []) \<Rightarrow> Some (int (digits_value ds)) | _ \<Rightarrow> None)
             | _ \<Rightarrow>
                 (case digitpart r' of
                    Some (ds, []) \<Rightarrow> Some (int (digits_value ds)) | _ \<Rightarrow> None))
          else None)"

text \<open>
  Rounding to binary64, to the nearest value and to the even one of two nearest:
  a positive \<open>a\<close> with \<open>2^k \<le> a < 2^(k+1)\<close> becomes \<open>m * 2^e\<close> with \<open>e = k - 52\<close>, not
  below \<open>-1074\<close>, and \<open>m\<close> the integer nearest to \<open>a / 2^e\<close>.  What reaches \<open>2^1024\<close> is
  an infinity.
\<close>

fun bit_length :: "nat \<Rightarrow> nat" where
  "bit_length n = (if n = 0 then 0 else Suc (bit_length (n div 2)))"

declare bit_length.simps [simp del]

definition pow2 :: "int \<Rightarrow> rat" where
  "pow2 e = (if e \<ge> 0 then 2 ^ nat e else 1 / 2 ^ nat (- e))"

definition floor_log2 :: "rat \<Rightarrow> int" where
  "floor_log2 a =
     (case quotient_of a of (p, q) \<Rightarrow>
        (let k = int (bit_length (nat p)) - int (bit_length (nat q))
         in if pow2 k \<le> a then k else k - 1))"

definition round_half_even :: "rat \<Rightarrow> int" where
  "round_half_even x =
     (let f = \<lfloor>x\<rfloor>; d = x - of_int f
      in if d < 1 / 2 then f
         else if 1 / 2 < d then f + 1
         else if even f then f else f + 1)"

definition mk_float :: "rat \<Rightarrow> pyfloat" where
  "mk_float r =
     (if r = 0 then Fin 0
      else
        (let a = \<bar>r\<bar>;
             e = max (floor_log2 a - 52) (- 1074);
             v = of_int (round_half_even (a / pow2 e)) * pow2 e
         in if 2 ^ 1024 \<le> v then (if 0 < r then PosInf else NegInf)
            else Fin (if 0 < r then v else - v)))"

definition scale10 :: "rat \<Rightarrow> int \<Rightarrow> rat" where
  "scale10 r e = (if e \<ge> 0 then r * 10 ^ nat e else r / 10 ^ nat (- e))"

definition parse_abs_float :: "string \<Rightarrow> pyfloat option" where
  "parse_abs_float s =
     (if lower s = ''inf'' \<or> lower s = ''infinity'' then Some PosInf
      else if lower s = ''nan'' then Some NaN
      else case parse_number s of
             None \<Rightarrow> None
           | Some (ip, fp, r) \<Rightarrow>
               (case parse_exponent r of
                  None \<Rightarrow> None
                | Some e \<Rightarrow>
                    Some (mk_float
                      (scale10 (of_nat (digits_value (ip @ fp))) (e - int (length fp))))))"

definition negate :: "pyfloat \<Rightarrow> pyfloat" where
  "negate f = (case f of Fin r \<Rightarrow> Fin (- r) | PosInf \<Rightarrow> NegInf | NegInf \<Rightarrow> PosInf | NaN \<Rightarrow> NaN)"

definition float_of_string :: "string \<Rightarrow> py_error + pyfloat" where
  "float_of_string s =
     (case strip s of
        CHR ''-'' # r \<Rightarrow>
          (case parse_abs_float r of Some f \<Rightarrow> Inr (negate f) | None \<Rightarrow> Inl ValueError)
      | CHR ''+'' # r \<Rightarrow>
          (case parse_abs_float r of Some f \<Rightarrow> Inr f | None \<Rightarrow> Inl ValueError)
      | r \<Rightarrow>
          (case parse_abs_float r of Some f \<Rightarrow> Inr f | None \<Rightarrow> Inl ValueError))"

text \<open>
  \<open>float(x)\<close>: a string is parsed, a number is converted (an integer too large for a
  float raises OverflowError), anything else is a TypeError.
\<close>

definition py_float :: "pyval \<Rightarrow> py_error + pyfloat" where
  "py_float x =
     (case x of
        PStr s \<Rightarrow> float_of_string s
      | PInt i \<Rightarrow>
          (case mk_float (of_int i) of Fin r \<Rightarrow> Inr (Fin r) | _ \<Rightarrow> Inl OverflowError)
      | PBool b \<Rightarrow> Inr (Fin (if b then 1 else 0))
      | PFloat f \<Rightarrow> Inr f
      | _ \<Rightarrow> Inl TypeError)"

text \<open>\<open>int(f)\<close> truncates towards zero; an infinity overflows and NaN is a ValueError.\<close>

definition py_int_of_float :: "pyfloat \<Rightarrow> py_error + int" where
  "py_int_of_float f =
     (case f of
        Fin r \<Rightarrow> Inr (if r \<ge> 0 then \<lfloor>r\<rfloor> else \<lceil>r\<rceil>)
      | NaN \<Rightarrow> Inl ValueError
      | _ \<Rightarrow> Inl OverflowError)"

text \<open>
  \<^verbatim>\<open>
  def as_float(x):
      if is_nan_or_empty(x): return None
      else:
          try: return float(str(x))
          except ValueError: return None
  \<close>
  For a float \<open>x\<close>, \<open>float(str(x))\<close> is \<open>x\<close> again (\<open>str\<close> of a float round-trips).
\<close>

definition as_float :: "pyval \<Rightarrow> py_error + pyval" where
  "as_float x =
     (if is_nan_or_empty x then Inr PNone
      else case x of
             PFloat f \<Rightarrow> Inr (PFloat f)
           | _ \<Rightarrow>
               (case py_str x of
                  None \<Rightarrow> Inl NotModelled
                | Some s \<Rightarrow>
                    (case float_of_string s of
                       Inr f \<Rightarrow> Inr (PFloat f)
                     | Inl e \<Rightarrow> if e = ValueError then Inr PNone else Inl e)))"

text \<open>
  \<^verbatim>\<open>
  def as_integer(x):
      if is_nan_or_empty(x): return 0
      else:
          try: return int(float(x))
          except ValueError: return None
  \<close>
  Only ValueError is caught: OverflowError and TypeError leave the function.
\<close>

definition as_integer :: "pyval \<Rightarrow> py_error + pyval" where
  "as_integer x =
     (if is_nan_or_empty x then Inr (PInt 0)
      else case py_float x of
             Inl e \<Rightarrow> if e = ValueError then Inr PNone else Inl e
           | Inr f \<Rightarrow>
               (case py_int_of_float f of
                  Inl e \<Rightarrow> if e = ValueError then Inr PNone else Inl e
                | Inr i \<Rightarrow> Inr (PInt i)))"

section \<open>Mapping rows and the expression compiler\<close>

text \<open>
  A row of the template sheet, as pandas hands it over: a blank cell is \<open>None\<close> or
  NaN, a filled one a string.  A row of the headers file carries the header's
  identification as well.
\<close>

record template_row =
  Order :: int
  Target_Field :: pyval
  Source_Field :: pyval
  Transformation1 :: pyval
  Transformation2 :: pyval
  Transformation3 :: pyval
  Converter :: pyval

record mapping = template_row +
  Kind :: pyval
  Sub_Kind :: pyval
  Header :: pyval
  Hash :: pyval
  Is_New :: pyval

type_synonym converter = "pyval \<Rightarrow> py_error + pyval"

text \<open>\<open>lambda x: None\<close>\<close>

definition const_none :: converter where
  "const_none x = Inr PNone"

text \<open>
  \<open>t.replace('$X', expression)\<close>: \<open>t\<close> must be a string (anything else has no
  \<open>replace\<close>) and so must the argument.
\<close>

definition substitute :: "pyval \<Rightarrow> pyval \<Rightarrow> py_error + pyval" where
  "substitute t expression =
     (case t of
        PStr ts \<Rightarrow>
          (case expression of
             PStr es \<Rightarrow> Inr (PStr (py_replace ts ''$X'' es))
           | _ \<Rightarrow> Inl TypeError)
      | _ \<Rightarrow> Inl AttributeError)"

text \<open>
  \<^verbatim>\<open>
  expression = 'NULL'
  if not is_nan_or_empty(m['Source_Field']):
      expression = m['Source_Field']
      if not is_nan_or_empty(m['Transformation1']):
          expression = m['Transformation1'].replace('$X', expression)
          if not is_nan_or_empty(m['Transformation2']):
              expression = m['Transformation2'].replace('$X', expression)
              if not is_nan_or_empty(m['Transformation3']):
                  expression = m['Transformation3'].replace('$X', expression)
  \<close>
\<close>

definition build_expression :: "'a template_row_scheme \<Rightarrow> py_error + pyval" where
  "build_expression m =
     (if is_nan_or_empty (Source_Field m) then Inr (PStr ''NULL'')
      else if is_nan_or_empty (Transformation1 m) then Inr (Source_Field m)
      else case substitute (Transformation1 m) (Source_Field m) of
        Inl e \<Rightarrow> Inl e
      | Inr e1 \<Rightarrow>
          if is_nan_or_empty (Transformation2 m) then Inr e1
          else case substitute (Transformation2 m) e1 of
            Inl e \<Rightarrow> Inl e
          | Inr e2 \<Rightarrow>
              if is_nan_or_empty (Transformation3 m) then Inr e2
              else substitute (Transformation3 m) e2)"

text \<open>
  \<^verbatim>\<open>
  if not is_nan_or_empty(m['Converter']):
      converters[m['Target_Field']] = eval(m['Converter'].replace('_as_', 'as_'))
  else:
      converters[m['Target_Field']] = lambda x: None
  \<close>
  \<open>eval\<close> of the converter's name is a parameter \<open>ev\<close>.
\<close>

definition build_converter ::
  "(string \<Rightarrow> py_error + converter) \<Rightarrow> 'a template_row_scheme \<Rightarrow> py_error + converter" where
  "build_converter ev m =
     (if \<not> is_nan_or_empty (Converter m) then
        (case Converter m of
           PStr c \<Rightarrow> ev (py_replace c ''_as_'' ''as_'')
         | _ \<Rightarrow> Inl AttributeError)
      else Inr const_none)"

text \<open>
  \<^verbatim>\<open>expressions.append(f"{expression} AS {m['Target_Field'].lower()}")\<close>

  Only a string has \<open>lower\<close>.
\<close>

definition format_expression :: "pyval \<Rightarrow> pyval \<Rightarrow> py_error + string" where
  "format_expression expression target =
     (case py_str expression of
        None \<Rightarrow> Inl NotModelled
      | Some es \<Rightarrow>
          (case target of
             PStr t \<Rightarrow> Inr (es @ '' AS '' @ lower t)
           | _ \<Rightarrow> Inl AttributeError))"

text \<open>
  One turn of the loop over the mapping rows, and the loop.  The dictionary is
  keyed by the row's \<open>Target_Field\<close>, so a later row with the same key replaces the
  converter of an earlier one.
\<close>

definition compile_row ::
  "(string \<Rightarrow> py_error + converter) \<Rightarrow> 'a template_row_scheme
    \<Rightarrow> string list \<times> (pyval \<rightharpoonup> converter)
    \<Rightarrow> py_error + (string list \<times> (pyval \<rightharpoonup> converter))" where
  "compile_row ev m acc =
     (case build_expression m of
        Inl e \<Rightarrow> Inl e
      | Inr expression \<Rightarrow>
          (case build_converter ev m of
             Inl e \<Rightarrow> Inl e
           | Inr c \<Rightarrow>
               (case format_expression expression (Target_Field m) of
                  Inl e \<Rightarrow> Inl e
                | Inr s \<Rightarrow> Inr (fst acc @ [s], (snd acc)(Target_Field m \<mapsto> c)))))"

fun compile_rows ::
  "(string \<Rightarrow> py_error + converter) \<Rightarrow> 'a template_row_scheme list
    \<Rightarrow> string list \<times> (pyval \<rightharpoonup> converter)
    \<Rightarrow> py_error + (string list \<times> (pyval \<rightharpoonup> converter))" where
  "compile_rows ev [] acc = Inr acc"
| "compile_rows ev (m # ms) acc =
     (case compile_row ev m acc of
        Inl e \<Rightarrow> Inl e
      | Inr acc' \<Rightarrow> compile_rows ev ms acc')"

definition get_expression_and_converters ::
  "(string \<Rightarrow> py_error + converter) \<Rightarrow> 'a template_row_scheme list
    \<Rightarrow> py_error + (string list \<times> (pyval \<rightharpoonup> converter))" where
  "get_expression_and_converters ev mappings = compile_rows ev mappings ([], Map.empty)"

section \<open>Header fingerprints and mappings\<close>

text \<open>
  \<open>f.readline()\<close> on a file opened in text mode: the line ends at the first line feed,
  carriage return or pair of both, and comes back ending in a single line feed.
\<close>

definition is_newline :: "char \<Rightarrow> bool" where
  "is_newline c = (c = CHR 0x0A \<or> c = CHR 0x0D)"

definition readline :: "string \<Rightarrow> string" where
  "readline content =
     (case dropWhile (\<lambda>c. \<not> is_newline c) content of
        [] \<Rightarrow> content
      | nl # _ \<Rightarrow> takeWhile (\<lambda>c. \<not> is_newline c) content @ [CHR 0x0A])"

text \<open>
  \<^verbatim>\<open>
  with open(cvm_file, 'r') as f:
      line = f.readline()
  file_name_parts = cvm_file.split(os.path.sep)[-1].split('.')
  kind = file_name_parts[0].upper()
  metadata_file = file_name_parts[-2]
  sub_kind = 'CAD_FI' if 'cad_fi' == metadata_file.lower()
                 or metadata_file.lower().startswith('inf_cadastral_fi') \
      else 'DIARIO_FI' if metadata_file.lower().startswith('inf_diario_fi')
      else metadata_file.upper()
  line = line.split('\n')[0]
  return kind, sub_kind, line, SU.hash_string(';'.join([kind, sub_kind, line]))
  \<close>
  \<open>hash_string\<close> (of the library \<open>fbpyutils\<close>) and the file system \<open>fs\<close> (the text of a
  path, or the exception that opening it raises) are parameters.
\<close>

definition get_cvm_file_metadata ::
  "(string \<Rightarrow> string) \<Rightarrow> (string \<Rightarrow> py_error + string) \<Rightarrow> string
    \<Rightarrow> py_error + (string \<times> string \<times> string \<times> string)" where
  "get_cvm_file_metadata hash_string fs cvm_file =
     (case fs cvm_file of
        Inl err \<Rightarrow> Inl err
      | Inr content \<Rightarrow>
          (let line = readline content;
               file_name_parts = split_on (CHR ''.'') (last (split_on (CHR ''/'') cvm_file));
               kind = upper (hd file_name_parts)
           in if length file_name_parts < 2 then Inl IndexError
              else
                (let metadata_file = file_name_parts ! (length file_name_parts - 2);
                     sub_kind =
                       (if ''cad_fi'' = lower metadata_file
                           \<or> prefix ''inf_cadastral_fi'' (lower metadata_file)
                        then ''CAD_FI''
                        else if prefix ''inf_diario_fi'' (lower metadata_file) then ''DIARIO_FI''
                        else upper metadata_file);
                     line' = hd (split_on (CHR 0x0A) line)
                 in Inr (kind, sub_kind, line',
                         hash_string (join '';'' [kind, sub_kind, line'])))))"

text \<open>
  The template sheet: each row with the text of its \<open>Header\<close> column (the kind it
  belongs to).  \<open>header_mappings[kind]\<close> are the rows of that header by \<open>Order\<close>; a kind
  that no row names is a KeyError.
\<close>

definition header_mapping_of ::
  "(string \<times> template_row) list \<Rightarrow> string \<Rightarrow> py_error + template_row list" where
  "header_mapping_of template kind =
     (if list_ex (\<lambda>p. fst p = kind) template
      then Inr (sort_key Order (map snd (filter (\<lambda>p. fst p = kind) template)))
      else Inl KeyError)"

text \<open>
  The row generated for a template row \<open>m\<close> and a new header; \<open>hfields\<close> is the list
  \<open>fields = header.split(';')\<close> of the source.
\<close>

definition new_row ::
  "string \<Rightarrow> string \<Rightarrow> string \<Rightarrow> string \<Rightarrow> string list \<Rightarrow> template_row \<Rightarrow> mapping" where
  "new_row kind sub_kind header header_hash hfields m =
     (let found = (Source_Field m \<in> set (map PStr hfields)) in
      \<lparr>Order = Order m,
       Target_Field = Target_Field m,
       Source_Field = (if found then Source_Field m else PNone),
       Transformation1 = (if found then Transformation1 m else PNone),
       Transformation2 = (if found then Transformation2 m else PNone),
       Transformation3 = (if found then Transformation3 m else PNone),
       Converter = (if found then Converter m else PNone),
       Kind = PStr kind, Sub_Kind = PStr sub_kind, Header = PStr header,
       Hash = PStr header_hash, Is_New = PBool True\<rparr>)"

text \<open>The row appended for a field \<open>f\<close> of the header that nothing maps.\<close>

definition orphan_row ::
  "string \<Rightarrow> string \<Rightarrow> string \<Rightarrow> string \<Rightarrow> string \<Rightarrow> int \<Rightarrow> mapping" where
  "orphan_row kind sub_kind header header_hash f max_order =
     \<lparr>Order = max_order, Target_Field = PNone, Source_Field = PStr f,
      Transformation1 = PNone, Transformation2 = PNone, Transformation3 = PNone,
      Converter = PNone,
      Kind = PStr kind, Sub_Kind = PStr sub_kind, Header = PStr header,
      Hash = PStr header_hash, Is_New = PBool True\<rparr>"

text \<open>
  \<^verbatim>\<open>
  for f in fields:
      if not f in source_fields and not f in mapped_fields:
          max_order += 1
          mappings.append({... 'Order': max_order, 'Target_Field': None, 'Source_Field': f ...})
  \<close>
\<close>

fun add_orphans ::
  "(string \<Rightarrow> int \<Rightarrow> mapping) \<Rightarrow> pyval list \<Rightarrow> pyval list \<Rightarrow> string list \<Rightarrow> int
    \<Rightarrow> mapping list \<Rightarrow> mapping list" where
  "add_orphans mk source_fields mapped_fields [] max_order mappings = mappings"
| "add_orphans mk source_fields mapped_fields (f # hfields) max_order mappings =
     (if PStr f \<notin> set source_fields \<and> PStr f \<notin> set mapped_fields
      then add_orphans mk source_fields mapped_fields hfields (max_order + 1)
             (mappings @ [mk f (max_order + 1)])
      else add_orphans mk source_fields mapped_fields hfields max_order mappings)"

text \<open>
  One turn of \<open>for m in header_mapping[:]\<close>.  The block under
  \<open>if sub_kind in ['CAD_FI', 'DIARIO_FI']\<close> stands inside this loop, so it runs once for
  every template row:
  \<^verbatim>\<open>
  max_order = max([h['Order'] for h in header_mapping if h['Source_Field'] is not None])
  source_fields = [h['Source_Field'] for h in header_mapping if h['Source_Field'] is not None]
  mapped_fields = [m['Source_Field'] for m in mappings if m['Target_Field'] is not None] +
                  [m['Source_Field'] for m in mappings if m['Transformation1'] is not None] +
                  [m['Source_Field'] for m in mappings if m['Transformation2'] is not None] +
                  [m['Source_Field'] for m in mappings if m['Transformation3'] is not None]
  \<close>
  \<open>max\<close> of an empty list raises ValueError.
\<close>

definition process_template_row ::
  "string \<Rightarrow> string \<Rightarrow> string \<Rightarrow> string \<Rightarrow> string list \<Rightarrow> template_row list \<Rightarrow> template_row
    \<Rightarrow> mapping list \<Rightarrow> py_error + mapping list" where
  "process_template_row kind sub_kind header header_hash hfields header_mapping m mappings =
     (let mappings1 = mappings @ [new_row kind sub_kind header header_hash hfields m] in
      if sub_kind \<in> set [''CAD_FI'', ''DIARIO_FI''] then
        (case map Order (filter (\<lambda>h. Source_Field h \<noteq> PNone) header_mapping) of
           [] \<Rightarrow> Inl ValueError
         | ord # ords \<Rightarrow>
             (let max_order = foldl max ord ords;
                  source_fields =
                    map Source_Field (filter (\<lambda>h. Source_Field h \<noteq> PNone) header_mapping);
                  mapped_fields =
                    map Source_Field (filter (\<lambda>m. Target_Field m \<noteq> PNone) mappings1)
                    @ map Source_Field (filter (\<lambda>m. Transformation1 m \<noteq> PNone) mappings1)
                    @ map Source_Field (filter (\<lambda>m. Transformation2 m \<noteq> PNone) mappings1)
                    @ map Source_Field (filter (\<lambda>m. Transformation3 m \<noteq> PNone) mappings1)
              in Inr (add_orphans (orphan_row kind sub_kind header header_hash)
                        source_fields mapped_fields hfields max_order mappings1)))
      else Inr mappings1)"

fun process_template_rows ::
  "string \<Rightarrow> string \<Rightarrow> string \<Rightarrow> string \<Rightarrow> string list \<Rightarrow> template_row list
    \<Rightarrow> template_row list \<Rightarrow> mapping list \<Rightarrow> py_error + mapping list" where
  "process_template_rows kind sub_kind header header_hash hfields header_mapping [] mappings =
     Inr mappings"
| "process_template_rows kind sub_kind header header_hash hfields header_mapping (m # ms) mappings =
     (case process_template_row kind sub_kind header header_hash hfields header_mapping m
             mappings of
        Inl err \<Rightarrow> Inl err
      | Inr mappings' \<Rightarrow>
          process_template_rows kind sub_kind header header_hash hfields header_mapping ms
            mappings')"

text \<open>
  The loop over the source headers of one group \<open>(kind, sub_kind)\<close>: a header whose
  hash the headers file already holds is passed over.
  \<^verbatim>\<open>
  if header_hash not in existing_mappings:
      fields = header.split(';')
      for m in header_mapping[:]: ...
  \<close>
\<close>

fun process_source_headers ::
  "pyval list \<Rightarrow> template_row list \<Rightarrow> (string \<times> string \<times> string \<times> string) list
    \<Rightarrow> mapping list \<Rightarrow> py_error + mapping list" where
  "process_source_headers existing_mappings header_mapping [] mappings = Inr mappings"
| "process_source_headers existing_mappings header_mapping (source_header # rest) mappings =
     (case source_header of (kind, sub_kind, header, header_hash) \<Rightarrow>
        if PStr header_hash \<notin> set existing_mappings then
          (case process_template_rows kind sub_kind header header_hash
                  (split_on (CHR '';'') header) header_mapping header_mapping mappings of
             Inl err \<Rightarrow> Inl err
           | Inr mappings' \<Rightarrow>
               process_source_headers existing_mappings header_mapping rest mappings')
        else process_source_headers existing_mappings header_mapping rest mappings)"

text \<open>
  The loop over the groups: \<open>header_mappings[kind]\<close> is looked up for every group, new
  headers or not.
\<close>

fun process_groups ::
  "(string \<times> template_row) list \<Rightarrow> pyval list \<Rightarrow> (string \<times> string \<times> string \<times> string) list
    \<Rightarrow> (string \<times> string) list \<Rightarrow> mapping list \<Rightarrow> py_error + mapping list" where
  "process_groups template existing_mappings source_headers [] mappings = Inr mappings"
| "process_groups template existing_mappings source_headers (g # groups) mappings =
     (case header_mapping_of template (fst g) of
        Inl err \<Rightarrow> Inl err
      | Inr header_mapping \<Rightarrow>
          (case process_source_headers existing_mappings header_mapping
                  (filter (\<lambda>h. (fst h, fst (snd h)) = g) source_headers) mappings of
             Inl err \<Rightarrow> Inl err
           | Inr mappings' \<Rightarrow>
               process_groups template existing_mappings source_headers groups mappings'))"

text \<open>The metadata of every file; the first exception ends the loop.\<close>

fun collect_source_headers ::
  "(string \<Rightarrow> string) \<Rightarrow> (string \<Rightarrow> py_error + string) \<Rightarrow> string list
    \<Rightarrow> py_error + (string \<times> string \<times> string \<times> string) list" where
  "collect_source_headers hash_string fs [] = Inr []"
| "collect_source_headers hash_string fs (file # files) =
     (case get_cvm_file_metadata hash_string fs file of
        Inl err \<Rightarrow> Inl err
      | Inr h \<Rightarrow>
          (case collect_source_headers hash_string fs files of
             Inl err \<Rightarrow> Inl err
           | Inr hs \<Rightarrow> Inr (h # hs)))"

text \<open>
  \<open>_get_cvm_updated_headers\<close>.  \<open>template\<close> is the sheet of the header mappings file,
  \<open>existing\<close> the rows of the headers file.  The source headers are a set and the
  groups come from \<open>select distinct\<close>: each once, here in the order of first
  appearance (Python and SQL leave the order open).  Whatever is raised on the way
  leaves the function as a ValueError.
\<close>

definition updated_headers ::
  "(string \<Rightarrow> string) \<Rightarrow> (string \<Rightarrow> py_error + string) \<Rightarrow> (string \<times> template_row) list
    \<Rightarrow> mapping list \<Rightarrow> string list \<Rightarrow> py_error + mapping list" where
  "updated_headers hash_string fs template existing cvm_files =
     (case collect_source_headers hash_string fs cvm_files of
        Inl err \<Rightarrow> Inl err
      | Inr collected \<Rightarrow>
          (let if_source_headers = remdups collected;
               existing_mappings = map Hash existing
           in if length cvm_files = 0 \<and> length (remdups existing_mappings) = 0
              then Inl ValueError
              else process_groups template existing_mappings if_source_headers
                     (remdups (map (\<lambda>h. (fst h, fst (snd h))) if_source_headers)) existing))"

definition get_cvm_updated_headers ::
  "(string \<Rightarrow> string) \<Rightarrow> (string \<Rightarrow> py_error + string) \<Rightarrow> (string \<times> template_row) list
    \<Rightarrow> mapping list \<Rightarrow> string list \<Rightarrow> py_error + mapping list" where
  "get_cvm_updated_headers hash_string fs template existing cvm_files =
     (case updated_headers hash_string fs template existing cvm_files of
        Inl err \<Rightarrow> Inl ValueError
      | Inr mappings \<Rightarrow> Inr mappings)"

section \<open>The catalog journal\<close>

text \<open>
  A row of the table \<open>if_remote_files\<close> and a row of the catalog journal.  Every column
  of an SQL table can hold NULL, so every field is an option.  Time stamps are stored
  as text (\<open>YYYY-MM-DD HH:MM:SS\<close>).
\<close>

record remote_row =
  sequence :: "int option"
  href :: "string option"
  name :: "string option"
  last_modified :: "string option"
  size' :: "int option"
  history :: "bool option"
  url :: "string option"
  kind :: "string option"

record journal_row = remote_row +
  last_download :: "string option"
  last_updated :: "string option"
  process :: "int option"
  active :: "int option"

text \<open>
  \<^verbatim>\<open>catalog_journal c full outer join if_remote_files r using (href, name, kind)\<close>

  Two rows join when the three columns are equal and not NULL.  A row of one table
  without a partner is padded with NULLs: the other side is \<open>None\<close>.
\<close>

definition key_match :: "journal_row \<Rightarrow> remote_row \<Rightarrow> bool" where
  "key_match c r =
     (href c \<noteq> None \<and> name c \<noteq> None \<and> kind c \<noteq> None
      \<and> href c = href r \<and> name c = name r \<and> kind c = kind r)"

definition full_outer_join ::
  "journal_row list \<Rightarrow> remote_row list \<Rightarrow> (journal_row option \<times> remote_row option) list" where
  "full_outer_join C R =
     concat (map (\<lambda>c. if list_ex (key_match c) R
                       then map (\<lambda>r. (Some c, Some r)) (filter (key_match c) R)
                       else [(Some c, None)]) C)
     @ map (\<lambda>r. (None, Some r)) (filter (\<lambda>r. \<not> list_ex (\<lambda>c. key_match c r) C) R)"

text \<open>A column of one side of a joined row: NULL when the side is padded.\<close>

definition col :: "('r \<Rightarrow> 'a option) \<Rightarrow> 'r option \<Rightarrow> 'a option" where
  "col f side = (case side of None \<Rightarrow> None | Some x \<Rightarrow> f x)"

text \<open>
  The first select: \<^verbatim>\<open>r.*, NULL last_download, NULL last_updated, 1 process, 1 active
  ... where c.sequence is null\<close>.
\<close>

definition select_new :: "journal_row option \<times> remote_row option \<Rightarrow> journal_row" where
  "select_new j =
     (case j of (c, r) \<Rightarrow>
        \<lparr>sequence = col sequence r, href = col href r, name = col name r,
         last_modified = col last_modified r, size' = col size' r,
         history = col history r, url = col url r, kind = col kind r,
         last_download = None, last_updated = None, process = Some 1, active = Some 1\<rparr>)"

definition where_new :: "journal_row option \<times> remote_row option \<Rightarrow> bool" where
  "where_new j = (case j of (c, r) \<Rightarrow> col sequence c = None)"

text \<open>
  The second select: \<^verbatim>\<open>c.*, c.last_download, c.last_updated, 0 process, 0 active
  ... where r.sequence is null\<close>.
\<close>

definition select_gone :: "journal_row option \<times> remote_row option \<Rightarrow> journal_row" where
  "select_gone j =
     (case j of (c, r) \<Rightarrow>
        \<lparr>sequence = col sequence c, href = col href c, name = col name c,
         last_modified = col last_modified c, size' = col size' c,
         history = col history c, url = col url c, kind = col kind c,
         last_download = col last_download c, last_updated = col last_updated c,
         process = Some 0, active = Some 0\<rparr>)"

definition where_gone :: "journal_row option \<times> remote_row option \<Rightarrow> bool" where
  "where_gone j = (case j of (c, r) \<Rightarrow> col sequence r = None)"

text \<open>
  The third select:
  \<^verbatim>\<open>
  r.*, c.last_download, c.last_updated,
  case when r.last_modified is null then 0
       when c.last_download is null then 1
       when r.last_modified > c.last_download then 1
       else 0 end process,
  c.active
  ... where r.sequence is not null
  \<close>
\<close>

definition recomputed_process :: "string option \<Rightarrow> string option \<Rightarrow> int" where
  "recomputed_process lm ld =
     (case lm of
        None \<Rightarrow> 0
      | Some m \<Rightarrow> (case ld of None \<Rightarrow> 1 | Some d \<Rightarrow> if str_less d m then 1 else 0))"

definition select_matched :: "journal_row option \<times> remote_row option \<Rightarrow> journal_row" where
  "select_matched j =
     (case j of (c, r) \<Rightarrow>
        \<lparr>sequence = col sequence r, href = col href r, name = col name r,
         last_modified = col last_modified r, size' = col size' r,
         history = col history r, url = col url r, kind = col kind r,
         last_download = col last_download c, last_updated = col last_updated c,
         process = Some (recomputed_process (col last_modified r) (col last_download c)),
         active = col active c\<rparr>)"

definition where_matched :: "journal_row option \<times> remote_row option \<Rightarrow> bool" where
  "where_matched j = (case j of (c, r) \<Rightarrow> col sequence r \<noteq> None)"

text \<open>
  The reconciliation query of \<open>CVM.update_cvm_catalog\<close>: the \<open>union\<close> of the three
  selects over the same join.  \<open>union\<close> drops rows that are equal in every column.
  SQL leaves the order of the result open; here the branches follow each other.
\<close>

definition catalog_journal_query :: "remote_row list \<Rightarrow> journal_row list \<Rightarrow> journal_row list" where
  "catalog_journal_query R J =
     (let joined = full_outer_join J R in
      remdups (map select_new (filter where_new joined)
               @ map select_gone (filter where_gone joined)
               @ map select_matched (filter where_matched joined)))"

text \<open>The key of a row: \<open>(href, name, kind)\<close>.\<close>

definition row_key :: "'a remote_row_scheme \<Rightarrow> string option \<times> string option \<times> string option" where
  "row_key r = (href r, name r, kind r)"

section \<open>The file synchronizer\<close>

text \<open>A nullable text as a Python value, and as \<open>format\<close> prints it.\<close>

definition pv :: "string option \<Rightarrow> pyval" where
  "pv x = (case x of None \<Rightarrow> PNone | Some s \<Rightarrow> PStr s)"

definition fmt :: "string option \<Rightarrow> string" where
  "fmt x = (case x of None \<Rightarrow> ''None'' | Some s \<Rightarrow> s)"

text \<open>\<open>a > b\<close> on two such values: \<open>None\<close> is not ordered against anything.\<close>

definition gt_opt :: "string option \<Rightarrow> string option \<Rightarrow> py_error + bool" where
  "gt_opt a b =
     (case a of
        None \<Rightarrow> Inl TypeError
      | Some x \<Rightarrow> (case b of None \<Rightarrow> Inl TypeError | Some y \<Rightarrow> Inr (str_less y x)))"

text \<open>
  The dictionary \<open>if_metadata\<close>: a journal row, the history folder, and (once a file
  is written) the name of the history file.
\<close>

record metadata = journal_row +
  history_folder :: string
  history_file :: "string option"

datatype status = SUCCESS | SKIP | ERROR

text \<open>
  An element of the result list: the status and the message.  A SUCCESS or ERROR
  element also refers to \<open>if_metadata\<close> itself (one shared dictionary, so every element
  sees its final state); a SKIP element has no such component.
\<close>

datatype result_entry = Entry status string

text \<open>What the function does to the world: it opens a URL, it writes a file.\<close>

datatype event = Urlopen "string option" | Write string string

text \<open>
  The world outside: what \<open>urlopen(url).read()\<close> returns or raises, how \<open>magic\<close>
  describes a buffer, the members (name and bytes) of a buffer read as a zip archive,
  whether a path can be opened for writing, and the clock.
\<close>

record env =
  urlopen :: "string \<Rightarrow> py_error + string"
  magic_from_buffer :: "string \<Rightarrow> string"
  zip_members :: "string \<Rightarrow> py_error + (string \<times> string) list"
  open_wb :: "string \<Rightarrow> bool"
  now :: string

text \<open>
  \<open>iso-8859-1\<close> maps every byte to the character of the same number; \<open>utf-8\<close> writes a
  character below 128 as itself and one from 128 to 255 as two bytes.
\<close>

definition decode_latin1 :: "string \<Rightarrow> string" where
  "decode_latin1 bytes = bytes"

definition encode_utf8 :: "string \<Rightarrow> string" where
  "encode_utf8 s =
     concat (map (\<lambda>c. if (of_char c :: nat) < 128 then [c]
                       else [char_of (192 + (of_char c :: nat) div 64),
                             char_of (128 + (of_char c :: nat) mod 64)]) s)"

text \<open>
  \<^verbatim>\<open>
  preffix = metadata['href'].split('.')[0]
  if file:
      index = str(int('0' if index is None else index)).zfill(4)
      target_file_name = '.'.join([preffix, index, file])
  else:
      target_file_name = metadata['href']
  target_file_name = '.'.join([metadata['kind'].lower(), target_file_name])
  return os.path.sep.join([target_folder, target_file_name])
  \<close>
\<close>

definition build_target_file_name ::
  "'a journal_row_scheme \<Rightarrow> string \<Rightarrow> nat option \<Rightarrow> string option \<Rightarrow> py_error + string" where
  "build_target_file_name md target_folder index file =
     (case href md of
        None \<Rightarrow> Inl AttributeError
      | Some h \<Rightarrow>
          (let preffix = hd (split_on (CHR ''.'') h);
               target_file_name =
                 (case file of
                    None \<Rightarrow> h
                  | Some f \<Rightarrow>
                      if f = [] then h
                      else join ''.''
                        [preffix, zfill 4 (str_nat (case index of None \<Rightarrow> 0 | Some k \<Rightarrow> k)), f])
           in case kind md of
                None \<Rightarrow> Inl AttributeError
              | Some k \<Rightarrow> Inr (join ''/'' [target_folder, join ''.'' [lower k, target_file_name]])))"

text \<open>
  \<^verbatim>\<open>
  target_file = _build_target_file_name(metadata, target_folder, index, file)
  with open(target_file, 'wb') as f:
      f.write(data.encode(encoding))
  return target_file
  \<close>
\<close>

definition write_target_file ::
  "env \<Rightarrow> string \<Rightarrow> 'a journal_row_scheme \<Rightarrow> string \<Rightarrow> nat option \<Rightarrow> string option
    \<Rightarrow> event list \<times> (py_error + string)" where
  "write_target_file e data md target_folder index file =
     (case build_target_file_name md target_folder index file of
        Inl err \<Rightarrow> ([], Inl err)
      | Inr target_file \<Rightarrow>
          if open_wb e target_file
          then ([Write target_file (encode_utf8 data)], Inr target_file)
          else ([], Inl OSError))"

text \<open>
  \<^verbatim>\<open>any([a for a in zip_mime_types if a in mime_type])\<close>, and the same for the text
  types.
\<close>

definition is_zip_mime :: "string \<Rightarrow> bool" where
  "is_zip_mime mime_type =
     list_ex (\<lambda>a. str_in a mime_type) [''Zip archive data, at least v2.0 to extract'']"

definition is_text_mime :: "string \<Rightarrow> bool" where
  "is_text_mime mime_type =
     list_ex (\<lambda>a. str_in a mime_type) [''Non-ISO extended-ASCII text'', ''ISO-8859 text'']"

text \<open>\<^verbatim>\<open>mime_type = FU.magic.from_buffer(data); mime_type = mime_type.split(';')[0]\<close>\<close>

definition mime_type_of :: "env \<Rightarrow> string \<Rightarrow> string" where
  "mime_type_of e data = hd (split_on (CHR '';'') (magic_from_buffer e data))"

text \<open>
  The loop over the members of a zip archive:
  \<^verbatim>\<open>
  for k, v in enumerate(zip_file.namelist()):
      response_data = zip_file.open(v).read().decode(SOURCE_ENCODING)
      r = _write_target_file(response_data, if_metadata, if_metadata['history_folder'],
                             index=k, file=v, encoding=TARGET_ENCODING)
      if_metadata['last_download'] = download_time
      if_metadata['history_file'] = r.split(os.path.sep)[-1]
      result.append(['SUCCESS', if_metadata, f'{r} written from {if_metadata["url"]}'])
  \<close>
\<close>

fun write_members ::
  "env \<Rightarrow> string \<Rightarrow> string \<Rightarrow> (string \<times> string) list \<Rightarrow> nat \<Rightarrow> metadata \<Rightarrow> result_entry list
    \<Rightarrow> event list \<times> (py_error + metadata \<times> result_entry list)" where
  "write_members e u download_time [] k md result = ([], Inr (md, result))"
| "write_members e u download_time (member # members) k md result =
     (case write_target_file e (decode_latin1 (snd member)) md (history_folder md)
             (Some k) (Some (fst member)) of
        (evs, Inl err) \<Rightarrow> (evs, Inl err)
      | (evs, Inr r) \<Rightarrow>
          (case write_members e u download_time members (Suc k)
                  (md\<lparr>last_download := Some download_time,
                      history_file := Some (last (split_on (CHR ''/'') r))\<rparr>)
                  (result @ [Entry SUCCESS (r @ '' written from '' @ u)]) of
             (evs', out) \<Rightarrow> (evs @ evs', out)))"

text \<open>
  \<^verbatim>\<open>is_nan_or_empty(if_metadata['last_download'])
      or (if_metadata['last_modified'] > if_metadata['last_download'])\<close>
\<close>

definition needs_download :: "'a journal_row_scheme \<Rightarrow> py_error + bool" where
  "needs_download md =
     (if is_nan_or_empty (pv (last_download md)) then Inr True
      else gt_opt (last_modified md) (last_download md))"

text \<open>
  \<open>_update_cvm_history_file\<close>: the events in the order they happen, and the exception
  raised or the final \<open>if_metadata\<close> with the result list.
\<close>

definition update_cvm_history_file ::
  "env \<Rightarrow> metadata \<Rightarrow> event list \<times> (py_error + metadata \<times> result_entry list)" where
  "update_cvm_history_file e md =
     (case needs_download md of
        Inl err \<Rightarrow> ([], Inl err)
      | Inr False \<Rightarrow>
          ([], Inr (md, [Entry SKIP (''Already updated data for url:'' @ fmt (url md))]))
      | Inr True \<Rightarrow>
          (case url md of
             None \<Rightarrow> ([Urlopen None], Inl AttributeError)
           | Some u \<Rightarrow>
               (case urlopen e u of
                  Inl err \<Rightarrow> ([Urlopen (Some u)], Inl err)
                | Inr data \<Rightarrow>
                    (let download_time = now e;
                         mime_type = mime_type_of e data
                     in if is_zip_mime mime_type then
                          (case zip_members e data of
                             Inl err \<Rightarrow> ([Urlopen (Some u)], Inl err)
                           | Inr members \<Rightarrow>
                               (case write_members e u download_time members 0 md [] of
                                  (evs, out) \<Rightarrow> (Urlopen (Some u) # evs, out)))
                        else if is_text_mime mime_type then
                          (case write_target_file e (decode_latin1 data) md
                                  (history_folder md) None None of
                             (evs, Inl err) \<Rightarrow> (Urlopen (Some u) # evs, Inl err)
                           | (evs, Inr r) \<Rightarrow>
                               (Urlopen (Some u) # evs,
                                Inr (md\<lparr>last_download := Some download_time,
                                        history_file := Some (last (split_on (CHR ''/'') r))\<rparr>,
                                     [Entry SUCCESS (r @ '' written from '' @ u)])))
                        else
                          ([Urlopen (Some u)],
                           Inr (md, [Entry ERROR
                                  (''Unknown mime type:'' @ mime_type @ '' for url:'' @ u)]))))))"

section \<open>\<open>CVM.update_cvm_catalog\<close>\<close>

text \<open>
  A flag column counts as true when it is neither NULL nor 0: in the \<open>where\<close> clause
  of the update, and in \<open>if m['process']\<close> (the query never leaves \<open>process\<close> NULL).
\<close>

definition is_true :: "int option \<Rightarrow> bool" where
  "is_true v = (case v of None \<Rightarrow> False | Some i \<Rightarrow> i \<noteq> 0)"

text \<open>\<^verbatim>\<open>m['history_folder'] = self.HISTORY_FOLDER\<close>\<close>

definition with_history_folder :: "string \<Rightarrow> journal_row \<Rightarrow> metadata" where
  "with_history_folder hf m =
     \<lparr>sequence = sequence m, href = href m, name = name m,
      last_modified = last_modified m, size' = size' m, history = history m,
      url = url m, kind = kind m, last_download = last_download m,
      last_updated = last_updated m, process = process m, active = active m,
      history_folder = hf, history_file = None\<rparr>"

definition metadata_to_process :: "string \<Rightarrow> journal_row list \<Rightarrow> metadata list" where
  "metadata_to_process hf journal =
     map (with_history_folder hf) (filter (\<lambda>m. is_true (process m)) journal)"

text \<open>
  \<^verbatim>\<open>
  for if_metadata in metadata_to_process:
      result = _update_cvm_history_file(if_metadata)
      results.append(result)
  \<close>
  The first exception ends the loop.
\<close>

fun process_all ::
  "env \<Rightarrow> metadata list \<Rightarrow> event list \<times> (py_error + (metadata \<times> result_entry list) list)" where
  "process_all e [] = ([], Inr [])"
| "process_all e (md # mds) =
     (case update_cvm_history_file e md of
        (evs, Inl err) \<Rightarrow> (evs, Inl err)
      | (evs, Inr r) \<Rightarrow>
          (case process_all e mds of
             (evs', Inl err) \<Rightarrow> (evs @ evs', Inl err)
           | (evs', Inr rs) \<Rightarrow> (evs @ evs', Inr (r # rs))))"

text \<open>
  \<^verbatim>\<open>[(r[0][1]['name'], r[0][1]['kind'], r[0][0], r[0][-1])
      for r in results if r[0][0] != 'SKIP']\<close>

  Only the first element of each result counts; an empty result (an archive without
  members) raises IndexError.
\<close>

fun result_data ::
  "(metadata \<times> result_entry list) list
    \<Rightarrow> py_error + (string option \<times> string option \<times> status \<times> string) list" where
  "result_data [] = Inr []"
| "result_data (r # rs) =
     (case snd r of
        [] \<Rightarrow> Inl IndexError
      | Entry st msg # _ \<Rightarrow>
          (case result_data rs of
             Inl err \<Rightarrow> Inl err
           | Inr rows \<Rightarrow>
               Inr (if st = SKIP then rows
                    else (name (fst r), kind (fst r), st, msg) # rows)))"

text \<open>
  \<^verbatim>\<open>
  select name, kind,
         sum(case when status='ERROR' then 1 else 0 end) errors,
         sum(case when status='SUCCESS' then 1 else 0 end) successes,
         sum(case when status='SKIP' then 1 else 0 end) skips
    from results group by name, kind
  \<close>
\<close>

definition count_status ::
  "status \<Rightarrow> string option \<times> string option
    \<Rightarrow> (string option \<times> string option \<times> status \<times> string) list \<Rightarrow> nat" where
  "count_status st g rows =
     length (filter (\<lambda>row. (fst row, fst (snd row)) = g \<and> fst (snd (snd row)) = st) rows)"

definition update_results ::
  "(string option \<times> string option \<times> status \<times> string) list
    \<Rightarrow> (string option \<times> string option \<times> nat \<times> nat \<times> nat) list" where
  "update_results rows =
     map (\<lambda>g. (fst g, snd g, count_status ERROR g rows, count_status SUCCESS g rows,
                count_status SKIP g rows))
         (remdups (map (\<lambda>row. (fst row, fst (snd row))) rows))"

text \<open>
  \<^verbatim>\<open>
  update cvm_if_catalog_journal
     set last_download = '{download_time}', process = FALSE
   where name = '{name}' and kind = '{kind}' and process and active
  \<close>
  on one row of the journal; \<open>n\<close> and \<open>k\<close> are the texts put between the quotes.
\<close>

definition set_download_date :: "string \<Rightarrow> string \<Rightarrow> string \<Rightarrow> journal_row \<Rightarrow> journal_row" where
  "set_download_date t n k row =
     (if name row = Some n \<and> kind row = Some k \<and> is_true (process row) \<and> is_true (active row)
      then row\<lparr>last_download := Some t, process := Some 0\<rparr>
      else row)"

text \<open>
  \<^verbatim>\<open>
  for name, kind, errors, successes, skips in update_results.to_records(index=False):
      if errors == 0 and (successes > 0 or skips > 0):
          self.CATALOG.execute(_sql)
  \<close>
  The statement is built by pasting the name and the kind between single quotes.  A
  text that holds a single quote itself changes the statement; that case is outside
  this model (\<open>NotModelled\<close>).
\<close>

fun update_download_dates ::
  "string \<Rightarrow> (string option \<times> string option \<times> nat \<times> nat \<times> nat) list \<Rightarrow> journal_row list
    \<Rightarrow> py_error + journal_row list" where
  "update_download_dates t [] journal = Inr journal"
| "update_download_dates t (g # gs) journal =
     (case g of (n, k, errors, successes, skips) \<Rightarrow>
        if errors = 0 \<and> (successes > 0 \<or> skips > 0) then
          (if CHR 0x27 \<in> set (fmt n) \<or> CHR 0x27 \<in> set (fmt k) then Inl NotModelled
           else update_download_dates t gs (map (set_download_date t (fmt n) (fmt k)) journal))
        else update_download_dates t gs journal)"

text \<open>
  What a run leaves behind: the journal table at the end, the events, and the value
  returned (the update results and the processed metadata) or the exception.  The
  method wraps every exception into a ValueError.  The reconciled journal replaces the
  table before any file is fetched, so it stays when a later step raises.

  \<open>R\<close> is the table \<open>if_remote_files\<close> (the listing with each \<open>url\<close> completed by the
  \<open>href\<close>), \<open>J\<close> the journal table as the run finds it.
\<close>

record catalog_outcome =
  journal_after :: "journal_row list"
  effects :: "event list"
  returned ::
    "py_error + ((string option \<times> string option \<times> nat \<times> nat \<times> nat) list \<times> metadata list)"

definition update_cvm_catalog ::
  "env \<Rightarrow> string \<Rightarrow> remote_row list \<Rightarrow> journal_row list \<Rightarrow> catalog_outcome" where
  "update_cvm_catalog e hf R J =
     (let journal = catalog_journal_query R J in
      case process_all e (metadata_to_process hf journal) of
        (evs, Inl err) \<Rightarrow>
          \<lparr>journal_after = journal, effects = evs, returned = Inl ValueError\<rparr>
      | (evs, Inr results) \<Rightarrow>
          (case result_data results of
             Inl err \<Rightarrow>
               \<lparr>journal_after = journal, effects = evs, returned = Inl ValueError\<rparr>
           | Inr rows \<Rightarrow>
               (case update_download_dates (now e) (update_results rows) journal of
                  Inl err \<Rightarrow>
                    \<lparr>journal_after = journal, effects = evs, returned = Inl err\<rparr>
                | Inr journal' \<Rightarrow>
                    \<lparr>journal_after = journal', effects = evs,
                     returned = Inr (update_results rows, map fst results)\<rparr>)))"

section \<open>Sample data\<close>

text \<open>Concrete inputs at which the properties below are evaluated.\<close>

definition sample_row :: template_row where
  "sample_row =
     \<lparr>Order = 1, Target_Field = PStr ''CNPJ'', Source_Field = PStr ''cnpj_fundo'',
      Transformation1 = PStr ''trim($X)'', Transformation2 = PFloat NaN,
      Transformation3 = PNone, Converter = PNone\<rparr>"

text \<open>An \<open>eval\<close> that knows no name.\<close>

definition eval_nothing :: "string \<Rightarrow> py_error + converter" where
  "eval_nothing s = Inl KeyError"

text \<open>One file of the remote listing, seen for the first time.\<close>

definition sample_remote :: remote_row where
  "sample_remote =
     \<lparr>sequence = Some 1, href = Some ''cad_fi.csv'', name = Some ''cad_fi'',
      last_modified = Some ''2024-01-02 00:00:00'', size' = Some 1024,
      history = Some False,
      url = Some ''http://dados.cvm.gov.br/dados/FI/CAD/DADOS/cad_fi.csv'',
      kind = Some ''IF_REGISTER''\<rparr>"

text \<open>The same file as the journal holds it after a download on 2024-01-01.\<close>

definition sample_journal :: journal_row where
  "sample_journal =
     \<lparr>sequence = Some 7, href = Some ''cad_fi.csv'', name = Some ''cad_fi'',
      last_modified = Some ''2023-12-30 00:00:00'', size' = Some 1000,
      history = Some False,
      url = Some ''http://dados.cvm.gov.br/dados/FI/CAD/DADOS/cad_fi.csv'',
      kind = Some ''IF_REGISTER'',
      last_download = Some ''2024-01-01 00:00:00'', last_updated = None,
      process = Some 0, active = Some 1\<rparr>"

text \<open>
  Its twin: the second row that a first run leaves in the journal for the same key,
  never marked active and never given a download date.
\<close>

definition sample_twin :: journal_row where
  "sample_twin =
     \<lparr>sequence = Some 7, href = Some ''cad_fi.csv'', name = Some ''cad_fi'',
      last_modified = Some ''2023-12-30 00:00:00'', size' = Some 1000,
      history = Some False,
      url = Some ''http://dados.cvm.gov.br/dados/FI/CAD/DADOS/cad_fi.csv'',
      kind = Some ''IF_REGISTER'',
      last_download = None, last_updated = None,
      process = Some 1, active = None\<rparr>"

text \<open>
  A world in which every URL answers with bytes that \<open>magic\<close> calls \<open>data\<close>, and the
  metadata of the two sample rows.
\<close>

definition sample_env :: env where
  "sample_env =
     \<lparr>urlopen = (\<lambda>u. Inr ''%PDF-1.4''), magic_from_buffer = (\<lambda>d. ''data''),
      zip_members = (\<lambda>d. Inl BadZipFile), open_wb = (\<lambda>p. True),
      now = ''2024-01-03 00:00:00''\<rparr>"

text \<open>
  A template of two rows for the kind \<open>IF_REGISTER\<close>, and a registration file whose
  header has a third column that the template does not know.
\<close>

definition sample_template :: "(string \<times> template_row) list" where
  "sample_template =
     [(''IF_REGISTER'',
       \<lparr>Order = 1, Target_Field = PStr ''CNPJ'', Source_Field = PStr ''CNPJ_FUNDO'',
        Transformation1 = PNone, Transformation2 = PNone, Transformation3 = PNone,
        Converter = PStr ''as_string_id''\<rparr>),
      (''IF_REGISTER'',
       \<lparr>Order = 2, Target_Field = PStr ''NAME'', Source_Field = PStr ''DENOM_SOCIAL'',
        Transformation1 = PNone, Transformation2 = PNone, Transformation3 = PNone,
        Converter = PStr ''as_string''\<rparr>)]"

definition sample_fs :: "string \<Rightarrow> py_error + string" where
  "sample_fs path = Inr (''CNPJ_FUNDO;DENOM_SOCIAL;SIT'' @ [CHR 0x0A] @ ''00.017.024/0001-53;FUNDO;EM FUNCIONAMENTO NORMAL'' @ [CHR 0x0A])"

text \<open>Any function will do for the hash; this one returns its argument.\<close>

definition sample_hash :: "string \<Rightarrow> string" where
  "sample_hash s = s"

text \<open>A row of the headers file, read from the sheet: blank cells are NaN.\<close>

definition sample_mapping :: mapping where
  "sample_mapping =
     \<lparr>Order = 1, Target_Field = PStr ''CNPJ'', Source_Field = PStr ''CNPJ_FUNDO'',
      Transformation1 = PFloat NaN, Transformation2 = PFloat NaN,
      Transformation3 = PFloat NaN, Converter = PStr ''as_string_id'',
      Kind = PStr ''IF_REGISTER'', Sub_Kind = PStr ''CAD_FI'', Header = PFloat NaN,
      Hash = PStr ''5d41402abc4b2a76b9719d911017c592'', Is_New = PBool False\<rparr>"

section \<open>Measures and invariants of the proofs\<close>

text \<open>A text as a number in base 256: among texts of one length, the order \<open>str_less\<close>.\<close>

fun str_val :: "string \<Rightarrow> nat" where
  "str_val [] = 0"
| "str_val (c # cs) = of_char c * 256 ^ length cs + str_val cs"

text \<open>
  The strings on which the loop of \<open>replace_all\<close> with \<open>old = ab\<close> and \<open>new = bbaa\<close>
  keeps turning: \<open>b\<^sup>n aab a\<^sup>m\<close> and \<open>b\<^sup>n abbaa a\<^sup>m\<close>.
\<close>

definition spinning :: "string \<Rightarrow> bool" where
  "spinning x =
     (\<exists>n m. x = replicate n (CHR ''b'') @ ''aab'' @ replicate m (CHR ''a'')
           \<or> x = replicate n (CHR ''b'') @ ''abbaa'' @ replicate m (CHR ''a''))"

section \<open>Properties\<close>

subsection \<open>The order of texts\<close>

lemma str_less_total: "(\<not> str_less b a) = (str_less a b \<or> a = b)"
proof (induction a b rule: str_less.induct)
  case (4 x xs y ys)
  then show ?case by (auto simp: of_char_eq_iff [where ?'a = nat, symmetric] simp del: of_char_eq_iff)
qed simp_all

subsection \<open>The converters\<close>

text \<open>
  C4, as the code has it: \<open>as_boolean("S")\<close> is true, \<open>as_boolean("n")\<close> is false,
  \<open>as_date("")\<close> and \<open>as_float("-")\<close> are None, and \<open>as_integer\<close> answers 0 on the empty
  string but None on \<open>"-"\<close>, which is not empty and does not parse.
\<close>

theorem C4_converter_edge_cases:
  "as_boolean (PStr ''S'') = Inr (PBool True)
   \<and> as_boolean (PStr ''n'') = Inr (PBool False)
   \<and> as_date (PStr []) = Inr PNone
   \<and> as_integer (PStr []) = Inr (PInt 0)
   \<and> as_integer (PStr ''-'') = Inr PNone
   \<and> as_float (PStr ''-'') = Inr PNone"
  by (simp add: as_boolean_def as_date_def as_integer_def as_float_def is_nan_or_empty_def
      isna_def str_is_empty_def upper_def upper_char_def py_float_def float_of_string_def
      strip_def is_space_def parse_abs_float_def lower_def parse_number_def digitpart_def)

text \<open>The claim's \<open>as_integer("-") == 0\<close> does not hold.\<close>

theorem C4_as_integer_dash_counterexample:
  "as_integer (PStr ''-'') \<noteq> Inr (PInt 0)"
  by (simp add: as_integer_def is_nan_or_empty_def isna_def str_is_empty_def py_float_def
      float_of_string_def strip_def is_space_def parse_abs_float_def lower_def
      parse_number_def digitpart_def)

subsection \<open>The expression compiler\<close>

lemma compile_row_snd:
  assumes "compile_row ev m acc = Inr acc'"
  shows "\<exists>c. build_converter ev m = Inr c \<and> snd acc' = (snd acc)(Target_Field m \<mapsto> c)"
  using assms by (auto simp: compile_row_def split: sum.splits)

lemma compile_rows_keeps:
  assumes "compile_rows ev ms acc = Inr (es, cs)"
    and "list_all (\<lambda>m'. Target_Field m' \<noteq> k) ms"
  shows "cs k = snd acc k"
  using assms
proof (induction ms arbitrary: acc)
  case Nil
  then show ?case by simp
next
  case (Cons m ms)
  from Cons.prems(1) obtain acc' where r: "compile_row ev m acc = Inr acc'"
    and rest: "compile_rows ev ms acc' = Inr (es, cs)"
    by (auto split: sum.splits)
  from Cons.prems(2) have k: "Target_Field m \<noteq> k"
    and tl: "list_all (\<lambda>m'. Target_Field m' \<noteq> k) ms"
    by simp_all
  from compile_row_snd [OF r] k have "snd acc' k = snd acc k" by auto
  with Cons.IH [OF rest tl] show ?case by simp
qed

lemma compile_rows_last:
  assumes "compile_rows ev ms acc = Inr (es, cs)"
    and "i < length ms"
    and "is_nan_or_empty (Converter (ms ! i))"
    and "list_all (\<lambda>m'. Target_Field m' \<noteq> Target_Field (ms ! i)) (drop (Suc i) ms)"
  shows "cs (Target_Field (ms ! i)) = Some const_none"
  using assms
proof (induction ms arbitrary: acc i)
  case Nil
  then show ?case by simp
next
  case (Cons m ms)
  from Cons.prems(1) obtain acc' where r: "compile_row ev m acc = Inr acc'"
    and rest: "compile_rows ev ms acc' = Inr (es, cs)"
    by (auto split: sum.splits)
  show ?case
  proof (cases i)
    case 0
    with Cons.prems have e: "is_nan_or_empty (Converter m)"
      and l: "list_all (\<lambda>m'. Target_Field m' \<noteq> Target_Field m) ms" by simp_all
    from compile_row_snd [OF r] e have "snd acc' (Target_Field m) = Some const_none"
      by (auto simp: build_converter_def)
    with compile_rows_keeps [OF rest l] 0 show ?thesis by simp
  next
    case (Suc i')
    with Cons.prems Cons.IH [OF rest, of i'] show ?thesis by simp
  qed
qed

lemma sample_row_compiled:
  "get_expression_and_converters eval_nothing [sample_row]
   = Inr ([''trim(cnpj_fundo) AS cnpj''], [PStr ''CNPJ'' \<mapsto> const_none])"
  by (simp add: get_expression_and_converters_def compile_row_def sample_row_def
      build_expression_def build_converter_def format_expression_def is_nan_or_empty_def
      isna_def str_is_empty_def substitute_def py_replace_def lower_def lower_char_def)

text \<open>
  C3, as the code has it: when the function returns, the converter stored under the
  \<open>Target_Field\<close> of a row whose \<open>Converter\<close> is empty or NaN (and whose key no later
  row overwrites) is the constant-None function: applied to any value it returns None.
\<close>

theorem C3_missing_converter_returns_none:
  assumes "get_expression_and_converters ev ms = Inr (es, cs)"
    and "i < length ms"
    and "is_nan_or_empty (Converter (ms ! i))"
    and "list_all (\<lambda>m'. Target_Field m' \<noteq> Target_Field (ms ! i)) (drop (Suc i) ms)"
  shows "\<exists>f. cs (Target_Field (ms ! i)) = Some f \<and> (\<forall>v. f v = Inr PNone)"
  using compile_rows_last [OF assms(1) [unfolded get_expression_and_converters_def] assms(2-4)]
  by (simp add: const_none_def)

theorem C3_missing_converter_returns_none_witness:
  "\<exists>f. [PStr ''CNPJ'' \<mapsto> const_none] (PStr ''CNPJ'') = Some f \<and> (\<forall>v. f v = Inr PNone)"
  using C3_missing_converter_returns_none [OF sample_row_compiled, of 0]
  by (simp add: sample_row_def is_nan_or_empty_def)

text \<open>
  The claim's pass-through fails: the row of \<open>sample_row\<close> has no converter, and the
  function stored for its target turns the text \<open>abc\<close> into None.
\<close>

theorem C3_identity_counterexample:
  "get_expression_and_converters eval_nothing [sample_row]
     = Inr ([''trim(cnpj_fundo) AS cnpj''], [PStr ''CNPJ'' \<mapsto> const_none])
   \<and> Converter sample_row = PNone
   \<and> Target_Field sample_row = PStr ''CNPJ''
   \<and> const_none (PStr ''abc'') \<noteq> Inr (PStr ''abc'')"
  using sample_row_compiled by (simp add: sample_row_def const_none_def)

subsection \<open>Replacing until nothing is left to replace\<close>

lemma str_val_append: "str_val (a @ b) = str_val a * 256 ^ length b + str_val b"
  by (induction a) (simp_all add: power_add algebra_simps)

lemma shift_less:
  fixes a b B r s :: nat
  assumes "a < b" and "r < B"
  shows "a * B + r < b * B + s"
proof -
  from assms(1) have "a + 1 \<le> b" by simp
  then have "(a + 1) * B \<le> b * B" by (rule mult_le_mono1)
  then have "a * B + B \<le> b * B" by (simp add: add_mult_distrib)
  with assms(2) show ?thesis by linarith
qed

lemma str_val_bound: "str_val s < 256 ^ length s"
proof (induction s)
  case Nil
  show ?case by simp
next
  case (Cons c cs)
  have "of_char c * 256 ^ length cs + str_val cs < 256 * 256 ^ length cs + 0"
    by (rule shift_less [OF nat_of_char_less_256 Cons])
  then show ?case by simp
qed

lemma str_less_val:
  "length a = length b \<Longrightarrow> str_less a b \<Longrightarrow> str_val a < str_val b"
proof (induction a b rule: list_induct2)
  case Nil
  then show ?case by simp
next
  case (Cons x xs y ys)
  from Cons.prems consider "(of_char x :: nat) < of_char y" | "x = y" "str_less xs ys" by auto
  then show ?case
  proof cases
    case 1
    from shift_less [OF 1 str_val_bound [of xs], of "str_val ys"] Cons.hyps
    show ?thesis by simp
  next
    case 2
    with Cons show ?thesis by simp
  qed
qed

lemma prefix_split:
  assumes "prefix old (c # cs)" and "old \<noteq> []"
  shows "c # cs = old @ drop (length old - 1) cs"
proof -
  from assms(1) obtain zs where z: "c # cs = old @ zs" by (auto elim: prefixE)
  with assms(2) obtain os where "old = c # os" by (cases old) auto
  with z show ?thesis by simp
qed

lemma replace_scan_same_length:
  "old \<noteq> [] \<Longrightarrow> length new = length old \<Longrightarrow> length (replace_scan x old new) = length x"
proof (induction x old new rule: replace_scan.induct)
  case (1 old new)
  show ?case by simp
next
  case (2 c cs old new)
  show ?case
  proof (cases "prefix old (c # cs)")
    case True
    define rest where "rest = drop (length old - 1) cs"
    from prefix_split [OF True 2(3)] have "c # cs = old @ rest" by (simp only: rest_def)
    then have "length (c # cs) = length old + length rest" by (metis length_append)
    moreover from 2(1) [OF True 2(3) 2(4)] have "length (replace_scan rest old new) = length rest"
      by (simp only: rest_def)
    moreover from True have "replace_scan (c # cs) old new = new @ replace_scan rest old new"
      by (simp add: rest_def)
    ultimately show ?thesis using 2(4) by simp
  next
    case False
    with 2 show ?thesis by simp
  qed
qed

lemma replace_scan_up:
  assumes "old \<noteq> []" and "length new = length old" and "str_val old < str_val new"
  shows "str_val x \<le> str_val (replace_scan x old new)
       \<and> (str_in old x \<longrightarrow> str_val x < str_val (replace_scan x old new))"
  using assms
proof (induction x old new rule: replace_scan.induct)
  case (1 old new)
  then show ?case by simp
next
  case (2 c cs old new)
  show ?case
  proof (cases "prefix old (c # cs)")
    case True
    define rest where "rest = drop (length old - 1) cs"
    define out where "out = replace_scan rest old new"
    have sp: "c # cs = old @ rest" using prefix_split [OF True 2(3)] by (simp only: rest_def)
    have len: "length out = length rest"
      unfolding out_def by (rule replace_scan_same_length [OF 2(3) 2(4)])
    have res: "replace_scan (c # cs) old new = new @ out"
      using True by (simp add: rest_def out_def)
    have "str_val (old @ rest) < str_val (new @ out)"
      unfolding str_val_append len
      by (rule shift_less [OF 2(5) str_val_bound])
    with sp res show ?thesis by simp
  next
    case False
    from 2(2) [OF False 2(3) 2(4) 2(5)] False
      replace_scan_same_length [OF 2(3) 2(4), of cs]
    show ?thesis by simp
  qed
qed

lemma replace_scan_down:
  assumes "old \<noteq> []" and "length new = length old" and "str_val new < str_val old"
  shows "str_val (replace_scan x old new) \<le> str_val x
       \<and> (str_in old x \<longrightarrow> str_val (replace_scan x old new) < str_val x)"
  using assms
proof (induction x old new rule: replace_scan.induct)
  case (1 old new)
  then show ?case by simp
next
  case (2 c cs old new)
  show ?case
  proof (cases "prefix old (c # cs)")
    case True
    define rest where "rest = drop (length old - 1) cs"
    define out where "out = replace_scan rest old new"
    have sp: "c # cs = old @ rest" using prefix_split [OF True 2(3)] by (simp only: rest_def)
    have len: "length out = length rest"
      unfolding out_def by (rule replace_scan_same_length [OF 2(3) 2(4)])
    have res: "replace_scan (c # cs) old new = new @ out"
      using True by (simp add: rest_def out_def)
    have "str_val out < 256 ^ length rest" using str_val_bound [of out] by (simp only: len)
    then have "str_val (new @ out) < str_val (old @ rest)"
      unfolding str_val_append len
      by (rule shift_less [OF 2(5)])
    with sp res show ?thesis by simp
  next
    case False
    from 2(2) [OF False 2(3) 2(4) 2(5)] False
      replace_scan_same_length [OF 2(3) 2(4), of cs]
    show ?thesis by simp
  qed
qed


lemma replace_scan_length_le:
  "length new \<le> length old \<Longrightarrow> length (replace_scan x old new) \<le> length x"
proof (induction x old new rule: replace_scan.induct)
  case (1 old new)
  then show ?case by simp
next
  case (2 c cs old new)
  show ?case
  proof (cases "prefix old (c # cs)")
    case True
    then have "length old \<le> Suc (length cs)" using prefix_length_le by fastforce
    with 2 True show ?thesis by (cases old) auto
  next
    case False
    with 2 show ?thesis by simp
  qed
qed

lemma replace_scan_length_less:
  "length new < length old \<Longrightarrow> str_in old x \<Longrightarrow> length (replace_scan x old new) < length x"
proof (induction x)
  case Nil
  then show ?case by simp
next
  case (Cons c cs)
  show ?case
  proof (cases "prefix old (c # cs)")
    case True
    then have le: "length old \<le> Suc (length cs)" using prefix_length_le by fastforce
    have "length (replace_scan (drop (length old - 1) cs) old new)
          \<le> length (drop (length old - 1) cs)"
      using Cons.prems(1) by (intro replace_scan_length_le) simp
    with True le Cons.prems(1) show ?thesis by simp
  next
    case False
    with Cons show ?thesis by simp
  qed
qed

lemma str_in_self: "old \<noteq> [] \<Longrightarrow> str_in old old"
  by (cases old) simp_all

lemma replace_all_shorter:
  assumes "length new < length old"
  shows "\<exists>y. replace_all x old new = Some y \<and> \<not> str_in old y"
proof (induction "length x" arbitrary: x rule: less_induct)
  case less
  show ?case
  proof (cases "str_in old x")
    case False
    then show ?thesis by (subst replace_all.simps) simp
  next
    case True
    from assms have ne: "old \<noteq> []" by auto
    have "length (py_replace x old new) < length x"
      using replace_scan_length_less [OF assms True] ne by (simp add: py_replace_def)
    from less [OF this] obtain y
      where "replace_all (py_replace x old new) old new = Some y" "\<not> str_in old y"
      by blast
    with True show ?thesis by (subst replace_all.simps) simp
  qed
qed

lemma replace_all_down:
  assumes "old \<noteq> []" and "length new = length old" and "str_val new < str_val old"
  shows "\<exists>y. replace_all x old new = Some y \<and> \<not> str_in old y"
proof (induction "str_val x" arbitrary: x rule: less_induct)
  case less
  show ?case
  proof (cases "str_in old x")
    case False
    then show ?thesis by (subst replace_all.simps) simp
  next
    case True
    have "str_val (py_replace x old new) < str_val x"
      using replace_scan_down [OF assms, of x] True assms(1) by (simp add: py_replace_def)
    from less [OF this] obtain y
      where "replace_all (py_replace x old new) old new = Some y" "\<not> str_in old y"
      by blast
    with True show ?thesis by (subst replace_all.simps) simp
  qed
qed

lemma replace_all_up:
  assumes "old \<noteq> []" and "length new = length old" and "str_val old < str_val new"
  shows "\<exists>y. replace_all x old new = Some y \<and> \<not> str_in old y"
proof (induction "256 ^ length x - str_val x" arbitrary: x rule: less_induct)
  case less
  show ?case
  proof (cases "str_in old x")
    case False
    then show ?thesis by (subst replace_all.simps) simp
  next
    case True
    have up: "str_val x < str_val (py_replace x old new)"
      using replace_scan_up [OF assms, of x] True assms(1) by (simp add: py_replace_def)
    have len: "length (py_replace x old new) = length x"
      using replace_scan_same_length [OF assms(1,2), of x] assms(1) by (simp add: py_replace_def)
    have "str_val (py_replace x old new) < 256 ^ length x"
      using str_val_bound [of "py_replace x old new"] by (simp only: len)
    with up have "256 ^ length (py_replace x old new) - str_val (py_replace x old new)
        < 256 ^ length x - str_val x" unfolding len by linarith
    from less [OF this] obtain y
      where "replace_all (py_replace x old new) old new = Some y" "\<not> str_in old y"
      by blast
    with True show ?thesis by (subst replace_all.simps) simp
  qed
qed

lemma scan_past_b:
  "replace_scan (replicate n (CHR ''b'') @ w) ''ab'' new
   = replicate n (CHR ''b'') @ replace_scan w ''ab'' new"
  by (induction n) simp_all

lemma scan_all_a: "replace_scan (replicate m (CHR ''a'')) ''ab'' new = replicate m (CHR ''a'')"
proof (induction m)
  case 0
  show ?case by simp
next
  case (Suc m)
  then show ?case by (cases m) simp_all
qed

lemma str_in_past_b: "str_in ''ab'' (replicate n (CHR ''b'') @ w) = str_in ''ab'' w"
  by (induction n) simp_all

lemma spin_step1:
  "py_replace (replicate n (CHR ''b'') @ ''aab'' @ replicate m (CHR ''a'')) ''ab'' ''bbaa''
   = replicate n (CHR ''b'') @ ''abbaa'' @ replicate m (CHR ''a'')"
  by (simp add: py_replace_def scan_past_b scan_all_a)

lemma spin_step2:
  "py_replace (replicate n (CHR ''b'') @ ''abbaa'' @ replicate m (CHR ''a'')) ''ab'' ''bbaa''
   = replicate (Suc (Suc n)) (CHR ''b'') @ ''aab'' @ replicate (Suc (Suc m)) (CHR ''a'')"
  using scan_all_a [of "Suc (Suc m)" "''bbaa''"]
  by (simp add: py_replace_def scan_past_b replicate_app_Cons_same)

lemma spinning_in: "spinning x \<Longrightarrow> str_in ''ab'' x"
  by (auto simp: spinning_def str_in_past_b)

lemma spinning_step: "spinning x \<Longrightarrow> spinning (py_replace x ''ab'' ''bbaa'')"
  unfolding spinning_def using spin_step1 spin_step2 by metis

lemma spinning_never_returns:
  assumes "replace_all x old new = Some y"
  shows "\<not> (spinning x \<and> old = ''ab'' \<and> new = ''bbaa'')"
proof (rule replace_all.raw_induct
    [where xa = "((x, old), new)" and y = y
       and P = "\<lambda>x old new y. \<not> (spinning x \<and> old = ''ab'' \<and> new = ''bbaa'')",
     simplified prod.case])
  show "replace_all x old new = Some y" by (rule assms)
next
  fix f x old new y
  assume ih: "\<And>x old new y. f x old new = Some y
      \<Longrightarrow> \<not> (spinning x \<and> old = ''ab'' \<and> new = ''bbaa'')"
    and body: "(if str_in old x then f (py_replace x old new) old new else Some x) = Some y"
  show "\<not> (spinning x \<and> old = ''ab'' \<and> new = ''bbaa'')"
  proof
    assume a: "spinning x \<and> old = ''ab'' \<and> new = ''bbaa''"
    with body spinning_in have "f (py_replace x ''ab'' ''bbaa'') ''ab'' ''bbaa'' = Some y"
      by simp
    from ih [OF this] spinning_step a show False by blast
  qed
qed

text \<open>
  C10, as the code has it: when \<open>old\<close> is not empty, does not occur in \<open>new\<close>, and
  \<open>new\<close> is no longer than \<open>old\<close> (the caller replaces two spaces by one), the loop
  terminates on every string, and what it returns holds no occurrence of \<open>old\<close>.  A
  shorter \<open>new\<close> makes the string shorter at every turn; one of the same length moves
  it strictly up or strictly down in the order of the texts of that length.
\<close>

theorem C10_replace_all_terminates:
  assumes "old \<noteq> []" and "\<not> str_in old new" and "length new \<le> length old"
  shows "\<exists>y. replace_all x old new = Some y \<and> \<not> str_in old y"
proof (cases "length new < length old")
  case True
  then show ?thesis by (rule replace_all_shorter)
next
  case False
  with assms(3) have len: "length new = length old" by simp
  from assms(1,2) str_in_self have "new \<noteq> old" by auto
  with str_less_total [of new old] have "str_less old new \<or> str_less new old" by auto
  then show ?thesis
  proof
    assume "str_less old new"
    with len have "str_val old < str_val new" by (intro str_less_val) simp_all
    from replace_all_up [OF assms(1) len this] show ?thesis .
  next
    assume "str_less new old"
    with len have "str_val new < str_val old" by (intro str_less_val) simp_all
    from replace_all_down [OF assms(1) len this] show ?thesis .
  qed
qed

theorem C10_replace_all_terminates_witness:
  "''  '' \<noteq> [] \<and> \<not> str_in ''  '' '' '' \<and> length '' '' \<le> length ''  ''
   \<and> (\<exists>y. replace_all ''a    b  c'' ''  '' '' '' = Some y \<and> \<not> str_in ''  '' y)"
  using C10_replace_all_terminates [of "''  ''" "'' ''" "''a    b  c''"] by simp

text \<open>
  With \<open>old = ab\<close> and \<open>new = bbaa\<close> the precondition of the claim holds (\<open>old\<close> is not
  empty and does not occur in \<open>new\<close>), and the loop started on \<open>aab\<close> never returns:
  two turns lead from \<open>aab\<close> to \<open>bb aab aa\<close>.
\<close>

theorem C10_growing_replacement_counterexample:
  "''ab'' \<noteq> [] \<and> \<not> str_in ''ab'' ''bbaa'' \<and> replace_all ''aab'' ''ab'' ''bbaa'' = None"
proof -
  have "spinning ''aab''" unfolding spinning_def
    by (rule exI [of _ 0], rule exI [of _ 0]) simp
  with spinning_never_returns [of "''aab''" "''ab''" "''bbaa''"]
  have "replace_all ''aab'' ''ab'' ''bbaa'' = None"
    by (cases "replace_all ''aab'' ''ab'' ''bbaa''") auto
  then show ?thesis by simp
qed

subsection \<open>The reconciliation query\<close>

lemma set_full_outer_join:
  "set (full_outer_join C R) =
     {(Some c, Some r) | c r. c \<in> set C \<and> r \<in> set R \<and> key_match c r}
     \<union> {(Some c, None) | c. c \<in> set C \<and> \<not> (\<exists>r \<in> set R. key_match c r)}
     \<union> {(None, Some r) | r. r \<in> set R \<and> \<not> (\<exists>c \<in> set C. key_match c r)}"
  by (auto simp: full_outer_join_def list_ex_iff split: if_splits)

lemma set_catalog_journal_query:
  "set (catalog_journal_query R J) =
     select_new ` {j \<in> set (full_outer_join J R). where_new j}
     \<union> select_gone ` {j \<in> set (full_outer_join J R). where_gone j}
     \<union> select_matched ` {j \<in> set (full_outer_join J R). where_matched j}"
  by (auto simp: catalog_journal_query_def Let_def)

text \<open>
  C5: for every row \<open>c\<close> of the journal and every row \<open>r\<close> of the remote listing with
  the same key (the listing numbers its rows, so \<open>r.sequence\<close> is not NULL), the
  reconciled journal holds the row that takes \<open>sequence\<close>, \<open>last_modified\<close>, \<open>size\<close> and
  \<open>url\<close> (and \<open>href\<close>, \<open>name\<close>, \<open>history\<close>, \<open>kind\<close>) from \<open>r\<close>, keeps \<open>last_download\<close>,
  \<open>last_updated\<close> and \<open>active\<close> of \<open>c\<close>, and whose \<open>process\<close> is 0 when the remote
  \<open>last_modified\<close> is NULL, else 1 when the local \<open>last_download\<close> is NULL, else 1 or 0
  as \<open>last_modified > last_download\<close> holds or not.  Nothing is asked of the other rows:
  the journal may hold the key more than once, as it does after a first run.
\<close>

theorem C5_matched_row:
  assumes c: "c \<in> set J" and r: "r \<in> set R" and m: "key_match c r"
    and sr: "sequence r \<noteq> None"
  shows "\<lparr>sequence = sequence r, href = href r, name = name r,
          last_modified = last_modified r, size' = size' r,
          history = history r, url = url r, kind = kind r,
          last_download = last_download c, last_updated = last_updated c,
          process = Some (case last_modified r of
                            None \<Rightarrow> 0
                          | Some lm \<Rightarrow> (case last_download c of
                                           None \<Rightarrow> 1
                                         | Some ld \<Rightarrow> if str_less ld lm then 1 else 0)),
          active = active c\<rparr>
         \<in> set (catalog_journal_query R J)"
proof -
  have sel: "select_matched (Some c, Some r) =
      \<lparr>sequence = sequence r, href = href r, name = name r,
             last_modified = last_modified r, size' = size' r,
             history = history r, url = url r, kind = kind r,
             last_download = last_download c, last_updated = last_updated c,
             process = Some (case last_modified r of
                               None \<Rightarrow> 0
                             | Some lm \<Rightarrow> (case last_download c of
                                              None \<Rightarrow> 1
                                            | Some ld \<Rightarrow> if str_less ld lm then 1 else 0)),
             active = active c\<rparr>"
    by (simp add: select_matched_def col_def recomputed_process_def split: option.splits)
  have pair: "(Some c, Some r) \<in> set (full_outer_join J R)"
    using c r m by (auto simp: set_full_outer_join)
  have wm: "where_matched (Some c, Some r)" using sr by (simp add: where_matched_def col_def)
  have "select_matched (Some c, Some r) \<in> set (catalog_journal_query R J)"
    unfolding set_catalog_journal_query using pair wm by blast
  then show ?thesis unfolding sel .
qed

theorem C5_matched_row_witness:
  "sample_journal \<in> set [sample_journal, sample_twin] \<and> sample_remote \<in> set [sample_remote]
   \<and> key_match sample_journal sample_remote \<and> sequence sample_remote \<noteq> None
   \<and> \<lparr>sequence = Some 1, href = Some ''cad_fi.csv'', name = Some ''cad_fi'',
       last_modified = Some ''2024-01-02 00:00:00'', size' = Some 1024,
       history = Some False,
       url = Some ''http://dados.cvm.gov.br/dados/FI/CAD/DADOS/cad_fi.csv'',
       kind = Some ''IF_REGISTER'',
       last_download = Some ''2024-01-01 00:00:00'', last_updated = None,
       process = Some 1, active = Some 1\<rparr>
       \<in> set (catalog_journal_query [sample_remote] [sample_journal, sample_twin])"
  using C5_matched_row
    [of sample_journal "[sample_journal, sample_twin]" sample_remote "[sample_remote]"]
  by (simp add: key_match_def sample_remote_def sample_journal_def)

text \<open>
  C1 at a first run: one remote file, an empty journal.  The joined row has no journal
  side, so it passes the first select (\<open>c.sequence is null\<close>) and the third as well
  (\<open>r.sequence is not null\<close>); the two rows differ in \<open>active\<close> (1 and NULL), \<open>union\<close>
  keeps both, and the key stands twice in the new journal.
\<close>

theorem C1_new_entry_listed_twice:
  "catalog_journal_query [sample_remote] [] =
     [\<lparr>sequence = Some 1, href = Some ''cad_fi.csv'', name = Some ''cad_fi'',
       last_modified = Some ''2024-01-02 00:00:00'', size' = Some 1024,
       history = Some False,
       url = Some ''http://dados.cvm.gov.br/dados/FI/CAD/DADOS/cad_fi.csv'',
       kind = Some ''IF_REGISTER'',
       last_download = None, last_updated = None, process = Some 1, active = Some 1\<rparr>,
      \<lparr>sequence = Some 1, href = Some ''cad_fi.csv'', name = Some ''cad_fi'',
       last_modified = Some ''2024-01-02 00:00:00'', size' = Some 1024,
       history = Some False,
       url = Some ''http://dados.cvm.gov.br/dados/FI/CAD/DADOS/cad_fi.csv'',
       kind = Some ''IF_REGISTER'',
       last_download = None, last_updated = None, process = Some 1, active = None\<rparr>]
   \<and> length (filter (\<lambda>row. row_key row = row_key sample_remote)
         (catalog_journal_query [sample_remote] [])) = 2"
  by (simp add: catalog_journal_query_def full_outer_join_def sample_remote_def
      where_new_def where_gone_def where_matched_def select_new_def select_matched_def
      col_def row_key_def recomputed_process_def)

subsection \<open>The file synchronizer\<close>

lemma needs_download_cases:
  "needs_download md =
     (case last_download md of
        None \<Rightarrow> Inr True
      | Some ld \<Rightarrow> if ld = [] then Inr True
                   else (case last_modified md of None \<Rightarrow> Inl TypeError | Some lm \<Rightarrow> Inr (str_less ld lm)))"
  by (simp add: needs_download_def is_nan_or_empty_def isna_def str_is_empty_def pv_def gt_opt_def
      split: option.splits)

lemma downloads_first:
  "needs_download md = Inr True \<Longrightarrow> \<exists>evs out. update_cvm_history_file e md = (Urlopen (url md) # evs, out)"
  by (auto simp: update_cvm_history_file_def Let_def split: option.splits sum.splits prod.splits)

text \<open>
  C6: for an entry whose time stamps can be compared (\<open>last_modified\<close> is not NULL, or
  \<open>last_download\<close> is NULL or empty, so that no \<open>None\<close> reaches the comparison), the
  function answers SKIP, with no download and no file written, exactly when
  \<open>last_download\<close> is neither NULL nor empty and \<open>last_modified \<le> last_download\<close>; in
  every other case the first thing it does is to open the URL.
\<close>

theorem C6_skip_iff_up_to_date:
  assumes "last_modified md \<noteq> None \<or> last_download md = None \<or> last_download md = Some []"
  shows "((\<exists>msg. update_cvm_history_file e md = ([], Inr (md, [Entry SKIP msg])))
          = (\<exists>lm ld. last_modified md = Some lm \<and> last_download md = Some ld \<and> ld \<noteq> []
                \<and> (str_less lm ld \<or> lm = ld)))
       \<and> ((\<exists>msg. update_cvm_history_file e md = ([], Inr (md, [Entry SKIP msg])))
          \<or> (\<exists>evs out. update_cvm_history_file e md = (Urlopen (url md) # evs, out)))"
proof (cases "needs_download md")
  case (Inl err)
  with assms show ?thesis by (auto simp: needs_download_cases split: option.splits if_splits)
next
  case (Inr b)
  show ?thesis
  proof (cases b)
    case True
    with Inr have nd: "needs_download md = Inr True" by simp
    from downloads_first [OF nd] obtain evs out
      where u: "update_cvm_history_file e md = (Urlopen (url md) # evs, out)" by blast
    from nd have "\<not> (\<exists>lm ld. last_modified md = Some lm \<and> last_download md = Some ld \<and> ld \<noteq> []
                \<and> (str_less lm ld \<or> lm = ld))"
      by (auto simp: needs_download_cases str_less_total [symmetric] split: option.splits if_splits)
    with u show ?thesis by auto
  next
    case False
    with Inr have nd: "needs_download md = Inr False" by simp
    then have s: "update_cvm_history_file e md
        = ([], Inr (md, [Entry SKIP (''Already updated data for url:'' @ fmt (url md))]))"
      by (simp add: update_cvm_history_file_def)
    from nd have "\<exists>lm ld. last_modified md = Some lm \<and> last_download md = Some ld \<and> ld \<noteq> []
                \<and> (str_less lm ld \<or> lm = ld)"
      by (auto simp: needs_download_cases str_less_total [symmetric] split: option.splits if_splits)
    with s show ?thesis by auto
  qed
qed

theorem C6_skip_iff_up_to_date_witness:
  "last_modified (with_history_folder ''/history'' sample_journal) \<noteq> None
   \<and> (\<exists>msg. update_cvm_history_file sample_env (with_history_folder ''/history'' sample_journal)
          = ([], Inr (with_history_folder ''/history'' sample_journal, [Entry SKIP msg])))
   \<and> str_less ''2023-12-30 00:00:00'' ''2024-01-01 00:00:00''"
  using C6_skip_iff_up_to_date [of "with_history_folder ''/history'' sample_journal" sample_env]
  by (simp add: with_history_folder_def sample_journal_def)

lemma joined_cases:
  assumes "j \<in> set (full_outer_join J R)"
  obtains (both) c r where "j = (Some c, Some r)" "c \<in> set J" "r \<in> set R" "key_match c r"
    | (left) c where "j = (Some c, None)" "c \<in> set J"
    | (right) r where "j = (None, Some r)" "r \<in> set R"
  using assms unfolding set_full_outer_join by blast

lemma query_process_true:
  assumes "row \<in> set (catalog_journal_query R J)" and "is_true (process row)"
  shows "needs_download row = Inr True
       \<and> (url row = None \<or> (\<exists>r \<in> set R. name row = name r \<and> kind row = kind r))"
proof -
  from assms(1) consider
      (new) j where "j \<in> set (full_outer_join J R)" "where_new j" "row = select_new j"
    | (gone) j where "j \<in> set (full_outer_join J R)" "where_gone j" "row = select_gone j"
    | (matched) j where "j \<in> set (full_outer_join J R)" "where_matched j" "row = select_matched j"
    unfolding set_catalog_journal_query by blast
  then show ?thesis
  proof cases
    case new
    from new(1) show ?thesis
      by (cases rule: joined_cases)
         (use new in \<open>auto simp: select_new_def needs_download_cases col_def\<close>)
  next
    case gone
    with assms(2) show ?thesis by (cases j) (simp add: select_gone_def is_true_def)
  next
    case matched
    from matched(1) show ?thesis
      by (cases rule: joined_cases)
         (use matched assms(2) in \<open>auto simp: select_matched_def needs_download_cases col_def
            is_true_def recomputed_process_def where_matched_def split: option.splits if_splits\<close>)
  qed
qed


subsection \<open>A run of the catalog update\<close>

lemma write_members_keeps:
  assumes "write_members e u t ms k md res = (evs, Inr (md', es))"
  shows "name md' = name md \<and> kind md' = kind md"
  using assms
proof (induction ms arbitrary: k md res evs)
  case Nil
  then show ?case by simp
next
  case (Cons m ms)
  then show ?case
    by (auto split: prod.splits sum.splits)
qed

lemma update_cvm_history_file_keeps:
  assumes "update_cvm_history_file e md = (evs, Inr (md', es))"
  shows "name md' = name md \<and> kind md' = kind md"
  using assms write_members_keeps
  by (auto simp: update_cvm_history_file_def Let_def
      split: sum.splits bool.splits option.splits if_splits prod.splits)

lemma unknown_mime_is_error:
  assumes "needs_download md = Inr True" and "url md = Some u" and "urlopen e u = Inr data"
    and "\<not> is_zip_mime (mime_type_of e data)" and "\<not> is_text_mime (mime_type_of e data)"
  shows "update_cvm_history_file e md
       = ([Urlopen (Some u)],
          Inr (md, [Entry ERROR (''Unknown mime type:'' @ mime_type_of e data @ '' for url:'' @ u)]))"
  using assms by (simp add: update_cvm_history_file_def)

lemma download_needs_url:
  assumes "needs_download md = Inr True" and "update_cvm_history_file e md = (evs, Inr r)"
  shows "url md \<noteq> None"
  using assms by (auto simp: update_cvm_history_file_def split: option.splits)

lemma process_all_results:
  assumes "process_all e mds = (evs, Inr results)"
  shows "list_all2 (\<lambda>md r. snd (update_cvm_history_file e md) = Inr r) mds results"
  using assms
proof (induction mds arbitrary: evs results)
  case Nil
  then show ?case by simp
next
  case (Cons md mds)
  then show ?case by (auto split: prod.splits sum.splits)
qed

lemma result_data_rows:
  assumes "result_data results = Inr rows"
  shows "(\<forall>r \<in> set results. \<forall>st msg rest. snd r = Entry st msg # rest \<and> st \<noteq> SKIP
            \<longrightarrow> (name (fst r), kind (fst r), st, msg) \<in> set rows)
       \<and> (\<forall>row \<in> set rows. \<exists>r \<in> set results. fst row = name (fst r) \<and> fst (snd row) = kind (fst r))"
  using assms
proof (induction results arbitrary: rows)
  case Nil
  then show ?case by simp
next
  case (Cons r rs)
  from Cons.prems obtain st msg rest rows' where h: "snd r = Entry st msg # rest"
    and rs: "result_data rs = Inr rows'"
    and rows: "rows = (if st = SKIP then rows' else (name (fst r), kind (fst r), st, msg) # rows')"
    by (auto split: list.splits result_entry.splits sum.splits)
  from Cons.IH [OF rs] h rows show ?case by auto
qed

lemma set_download_date_keeps:
  "name (set_download_date t n k row) = name row \<and> kind (set_download_date t n k row) = kind row"
  by (simp add: set_download_date_def)

lemma update_download_dates_frame:
  assumes "update_download_dates t gs journal = Inr journal'"
    and "list_all (\<lambda>g. \<not> (fst (snd (snd g)) = 0 \<and> Some (fmt (fst g)) = N \<and> Some (fmt (fst (snd g))) = K)) gs"
  shows "list_all2 (\<lambda>a b. name b = name a \<and> kind b = kind a
            \<and> (name a = N \<and> kind a = K \<longrightarrow> last_download b = last_download a)) journal journal'"
  using assms
proof (induction gs arbitrary: journal)
  case Nil
  then show ?case by (simp add: list.rel_refl)
next
  case (Cons g gs)
  obtain n k er su sk where g: "g = (n, k, er, su, sk)" by (cases g) auto
  show ?case
  proof (cases "er = 0 \<and> (su > 0 \<or> sk > 0)")
    case False
    with Cons g show ?thesis by auto
  next
    case True
    with Cons.prems(1) g have rest: "update_download_dates t gs (map (set_download_date t (fmt n) (fmt k)) journal) = Inr journal'"
      by (auto split: if_splits)
    from Cons.prems(2) g True have miss: "\<not> (Some (fmt n) = N \<and> Some (fmt k) = K)" by simp
    have first: "list_all2 (\<lambda>a b. name b = name a \<and> kind b = kind a
            \<and> (name a = N \<and> kind a = K \<longrightarrow> last_download b = last_download a))
          journal (map (set_download_date t (fmt n) (fmt k)) journal)"
      using miss by (auto simp: list_all2_map2 set_download_date_def intro!: list.rel_refl)
    from Cons.IH [OF rest] Cons.prems(2) have second: "list_all2 (\<lambda>a b. name b = name a \<and> kind b = kind a
            \<and> (name a = N \<and> kind a = K \<longrightarrow> last_download b = last_download a))
          (map (set_download_date t (fmt n) (fmt k)) journal) journal'" by simp
    show ?thesis
      by (rule list_all2_trans [OF _ first second]) auto
  qed
qed


lemma with_history_folder_fields:
  "name (with_history_folder hf row) = name row"
  "kind (with_history_folder hf row) = kind row"
  "url (with_history_folder hf row) = url row"
  "needs_download (with_history_folder hf row) = needs_download row"
  by (simp_all add: with_history_folder_def needs_download_def)

lemma todo_row:
  assumes "md \<in> set (metadata_to_process hf (catalog_journal_query R J))"
  shows "needs_download md = Inr True
       \<and> (url md = None \<or> (\<exists>r \<in> set R. name md = name r \<and> kind md = kind r))"
proof -
  from assms obtain row where "row \<in> set (catalog_journal_query R J)" "is_true (process row)"
    "md = with_history_folder hf row"
    by (auto simp: metadata_to_process_def)
  with query_process_true [of row R J] show ?thesis
    by (simp add: with_history_folder_fields)
qed

text \<open>
  C7: let an entry that the run processes fetch content that is neither a zip archive
  nor one of the known text types (the remote listing naming and typing every file).
  Then \<open>_update_cvm_history_file\<close> opens the URL, writes nothing and reports ERROR for
  the entry, and the journal the run leaves behind has the \<open>last_download\<close> of every
  row with the entry's name and kind as the reconciliation set it: the update after
  the run touches only groups without an ERROR.
\<close>

theorem C7_unknown_content_is_error:
  assumes wf: "list_all (\<lambda>r. name r \<noteq> None \<and> kind r \<noteq> None) R"
    and md: "md \<in> set (metadata_to_process hf (catalog_journal_query R J))"
    and u: "url md = Some u" and data: "urlopen e u = Inr data"
    and nz: "\<not> is_zip_mime (mime_type_of e data)" and nt: "\<not> is_text_mime (mime_type_of e data)"
    and modelled: "returned (update_cvm_catalog e hf R J) \<noteq> Inl NotModelled"
  shows "update_cvm_history_file e md
           = ([Urlopen (Some u)],
              Inr (md, [Entry ERROR (''Unknown mime type:'' @ mime_type_of e data @ '' for url:'' @ u)]))
       \<and> list_all2 (\<lambda>before after. name before = name md \<and> kind before = kind md
                       \<longrightarrow> last_download after = last_download before)
            (catalog_journal_query R J) (journal_after (update_cvm_catalog e hf R J))"
proof
  let ?journal = "catalog_journal_query R J"
  let ?todo = "metadata_to_process hf ?journal"
  let ?P = "\<lambda>before after. name before = name md \<and> kind before = kind md
                       \<longrightarrow> last_download after = last_download before"
  from todo_row [OF md] have nd: "needs_download md = Inr True" by simp
  show err: "update_cvm_history_file e md
           = ([Urlopen (Some u)],
              Inr (md, [Entry ERROR (''Unknown mime type:'' @ mime_type_of e data @ '' for url:'' @ u)]))"
    by (rule unknown_mime_is_error [OF nd u data nz nt])
  have same: "list_all2 ?P ?journal ?journal" by (simp add: list.rel_refl)
  obtain evs out where pa: "process_all e ?todo = (evs, out)" by (cases "process_all e ?todo")
  show "list_all2 ?P ?journal (journal_after (update_cvm_catalog e hf R J))"
  proof (cases out)
    case (Inl err)
    with pa same show ?thesis by (simp add: update_cvm_catalog_def)
  next
    case (Inr results)
    note res = pa [unfolded Inr]
    show ?thesis
    proof (cases "result_data results")
      case (Inl err)
      with res same show ?thesis by (simp add: update_cvm_catalog_def)
    next
      case rows: (Inr rows)
      show ?thesis
      proof (cases "update_download_dates (now e) (update_results rows) ?journal")
        case (Inl err)
        with res rows same show ?thesis by (simp add: update_cvm_catalog_def)
      next
        case upd: (Inr journal')
        have all: "list_all2 (\<lambda>md r. snd (update_cvm_history_file e md) = Inr r) ?todo results"
          by (rule process_all_results [OF res])
        \<comment> \<open>the failed entry stands in the result table as an ERROR\<close>
        from md obtain i where i: "i < length ?todo" "?todo ! i = md"
          by (auto simp: in_set_conv_nth)
        with all have "snd (update_cvm_history_file e md) = Inr (results ! i)" "i < length results"
          by (auto simp: list_all2_conv_all_nth)
        with err have "(md, [Entry ERROR (''Unknown mime type:'' @ mime_type_of e data @ '' for url:'' @ u)])
            \<in> set results" by (metis Inr_inject nth_mem snd_conv)
        with result_data_rows [OF rows] have inrows:
          "(name md, kind md, ERROR, ''Unknown mime type:'' @ mime_type_of e data @ '' for url:'' @ u) \<in> set rows"
          by fastforce
        \<comment> \<open>every row of the result table has a name and a kind\<close>
        have named: "fst row \<noteq> None \<and> fst (snd row) \<noteq> None" if "row \<in> set rows" for row
        proof -
          from result_data_rows [OF rows] that obtain r where r: "r \<in> set results"
            "fst row = name (fst r)" "fst (snd row) = kind (fst r)" by blast
          from r(1) obtain j where j: "j < length results" "results ! j = r"
            by (auto simp: in_set_conv_nth)
          with all have jl: "j < length ?todo"
            and run: "snd (update_cvm_history_file e (?todo ! j)) = Inr r"
            by (auto simp: list_all2_conv_all_nth)
          from jl have mem: "?todo ! j \<in> set ?todo" by simp
          from run obtain evs' where run': "update_cvm_history_file e (?todo ! j) = (evs', Inr r)"
            by (cases "update_cvm_history_file e (?todo ! j)") auto
          from todo_row [OF mem] download_needs_url [OF _ run']
          obtain rr where "rr \<in> set R" "name (?todo ! j) = name rr" "kind (?todo ! j) = kind rr"
            by blast
          with wf have "name (?todo ! j) \<noteq> None" "kind (?todo ! j) \<noteq> None"
            by (auto simp: list_all_iff)
          moreover from run' update_cvm_history_file_keeps [of e "?todo ! j" evs' "fst r" "snd r"]
          have "name (fst r) = name (?todo ! j)" "kind (fst r) = kind (?todo ! j)" by simp_all
          ultimately show ?thesis using r by simp
        qed
        have groups: "list_all (\<lambda>g. \<not> (fst (snd (snd g)) = 0 \<and> Some (fmt (fst g)) = name md
              \<and> Some (fmt (fst (snd g))) = kind md)) (update_results rows)"
          unfolding list_all_iff
        proof
          fix g assume g: "g \<in> set (update_results rows)"
          then obtain row where row: "row \<in> set rows" and gk: "fst g = fst row" "fst (snd g) = fst (snd row)"
            and er: "fst (snd (snd g)) = count_status ERROR (fst row, fst (snd row)) rows"
            by (auto simp: update_results_def)
          show "\<not> (fst (snd (snd g)) = 0 \<and> Some (fmt (fst g)) = name md
              \<and> Some (fmt (fst (snd g))) = kind md)"
          proof
            assume a: "fst (snd (snd g)) = 0 \<and> Some (fmt (fst g)) = name md
              \<and> Some (fmt (fst (snd g))) = kind md"
            from named [OF row] gk a have "fst row = name md" "fst (snd row) = kind md"
              by (auto simp: fmt_def)
            with er a have "count_status ERROR (name md, kind md) rows = 0" by simp
            with inrows show False by (force simp: count_status_def filter_empty_conv)
          qed
        qed
        from update_download_dates_frame [OF upd groups]
        have "list_all2 ?P ?journal journal'"
          by (rule list_all2_mono) simp
        with res rows upd show ?thesis by (simp add: update_cvm_catalog_def)
      qed
    qed
  qed
qed


lemma sample_first_run:
  "catalog_journal_query [sample_remote] [] =
     [\<lparr>sequence = Some 1, href = Some ''cad_fi.csv'', name = Some ''cad_fi'',
       last_modified = Some ''2024-01-02 00:00:00'', size' = Some 1024,
       history = Some False,
       url = Some ''http://dados.cvm.gov.br/dados/FI/CAD/DADOS/cad_fi.csv'',
       kind = Some ''IF_REGISTER'',
       last_download = None, last_updated = None, process = Some 1, active = Some 1\<rparr>,
      \<lparr>sequence = Some 1, href = Some ''cad_fi.csv'', name = Some ''cad_fi'',
       last_modified = Some ''2024-01-02 00:00:00'', size' = Some 1024,
       history = Some False,
       url = Some ''http://dados.cvm.gov.br/dados/FI/CAD/DADOS/cad_fi.csv'',
       kind = Some ''IF_REGISTER'',
       last_download = None, last_updated = None, process = Some 1, active = None\<rparr>]"
  by (simp add: catalog_journal_query_def full_outer_join_def sample_remote_def
      where_new_def where_gone_def where_matched_def select_new_def select_matched_def
      col_def recomputed_process_def)

lemma sample_mime: "mime_type_of sample_env data = ''data''"
  by (simp add: mime_type_of_def sample_env_def)

lemma sample_unknown: "\<not> is_zip_mime ''data'' \<and> \<not> is_text_mime ''data''"
  by (simp add: is_zip_mime_def is_text_mime_def)

theorem C7_unknown_content_is_error_witness:
  "update_cvm_history_file sample_env
       (with_history_folder ''/history'' (hd (catalog_journal_query [sample_remote] [])))
     = ([Urlopen (Some ''http://dados.cvm.gov.br/dados/FI/CAD/DADOS/cad_fi.csv'')],
        Inr (with_history_folder ''/history'' (hd (catalog_journal_query [sample_remote] [])),
             [Entry ERROR
                ''Unknown mime type:data for url:http://dados.cvm.gov.br/dados/FI/CAD/DADOS/cad_fi.csv'']))
   \<and> map last_download (journal_after (update_cvm_catalog sample_env ''/history'' [sample_remote] []))
       = [None, None]
   \<and> returned (update_cvm_catalog sample_env ''/history'' [sample_remote] []) \<noteq> Inl NotModelled"
proof -
  let ?md = "with_history_folder ''/history'' (hd (catalog_journal_query [sample_remote] []))"
  have u: "url ?md = Some ''http://dados.cvm.gov.br/dados/FI/CAD/DADOS/cad_fi.csv''"
    by (simp add: sample_first_run with_history_folder_def)
  have md: "?md \<in> set (metadata_to_process ''/history'' (catalog_journal_query [sample_remote] []))"
    by (simp add: sample_first_run metadata_to_process_def is_true_def)
  have d: "urlopen sample_env ''http://dados.cvm.gov.br/dados/FI/CAD/DADOS/cad_fi.csv'' = Inr ''%PDF-1.4''"
    by (simp add: sample_env_def)
  have wf: "list_all (\<lambda>r. name r \<noteq> None \<and> kind r \<noteq> None) [sample_remote]"
    by (simp add: sample_remote_def)
  have run: "\<And>md. needs_download md = Inr True \<Longrightarrow> url md = Some ''http://dados.cvm.gov.br/dados/FI/CAD/DADOS/cad_fi.csv''
     \<Longrightarrow> update_cvm_history_file sample_env md = ([Urlopen (Some ''http://dados.cvm.gov.br/dados/FI/CAD/DADOS/cad_fi.csv'')],
        Inr (md, [Entry ERROR ''Unknown mime type:data for url:http://dados.cvm.gov.br/dados/FI/CAD/DADOS/cad_fi.csv'']))"
    using unknown_mime_is_error [of _ _ sample_env "''%PDF-1.4''"] d sample_unknown
    by (simp add: sample_mime)
  have out: "update_cvm_catalog sample_env ''/history'' [sample_remote] [] =
     \<lparr>journal_after = catalog_journal_query [sample_remote] [],
      effects = [Urlopen (Some ''http://dados.cvm.gov.br/dados/FI/CAD/DADOS/cad_fi.csv''),
                 Urlopen (Some ''http://dados.cvm.gov.br/dados/FI/CAD/DADOS/cad_fi.csv'')],
      returned = Inr ([(Some ''cad_fi'', Some ''IF_REGISTER'', 2, 0, 0)],
                      metadata_to_process ''/history'' (catalog_journal_query [sample_remote] []))\<rparr>"
    by (simp add: update_cvm_catalog_def sample_first_run metadata_to_process_def is_true_def
        run needs_download_cases with_history_folder_def update_results_def count_status_def)
  have nm: "returned (update_cvm_catalog sample_env ''/history'' [sample_remote] []) \<noteq> Inl NotModelled"
    by (simp add: out)
  from C7_unknown_content_is_error [OF wf md u d _ _ nm] sample_unknown
  show ?thesis by (simp add: sample_mime out sample_first_run)
qed


subsection \<open>Header fingerprints and mappings\<close>

lemma metadata_hash:
  assumes "get_cvm_file_metadata hs fs f = Inr (k, s, l, h)"
  shows "h = hs (join '';'' [k, s, l])"
  using assms
  by (auto simp: get_cvm_file_metadata_def Let_def split: sum.splits if_splits)

lemma add_orphans_appends:
  "\<exists>new. add_orphans (orphan_row k s h hh) sf mf fs mo ms = ms @ new
         \<and> list_all (\<lambda>m. Hash m = PStr hh) new"
proof (induction fs arbitrary: mo ms)
  case Nil
  show ?case by simp
next
  case (Cons f fs)
  show ?case
  proof (cases "PStr f \<notin> set sf \<and> PStr f \<notin> set mf")
    case True
    from Cons [of "mo + 1" "ms @ [orphan_row k s h hh f (mo + 1)]"] obtain new
      where "add_orphans (orphan_row k s h hh) sf mf fs (mo + 1) (ms @ [orphan_row k s h hh f (mo + 1)])
             = (ms @ [orphan_row k s h hh f (mo + 1)]) @ new" "list_all (\<lambda>m. Hash m = PStr hh) new"
      by blast
    moreover have "Hash (orphan_row k s h hh f (mo + 1)) = PStr hh" by (simp add: orphan_row_def)
    ultimately show ?thesis using True
      by (intro exI [of _ "orphan_row k s h hh f (mo + 1) # new"]) simp
  next
    case False
    with Cons [of mo ms] show ?thesis by auto
  qed
qed

lemma process_template_row_appends:
  assumes "process_template_row k s h hh fs hm m ms = Inr ms'"
  shows "\<exists>new. ms' = ms @ new \<and> list_all (\<lambda>m. Hash m = PStr hh) new"
proof (cases "s \<in> set [''CAD_FI'', ''DIARIO_FI'']")
  case False
  have "Hash (new_row k s h hh fs m) = PStr hh" by (simp add: new_row_def Let_def)
  with assms False show ?thesis
    by (auto simp: process_template_row_def Let_def)
next
  case True
  with assms obtain sf mf mo where
    "ms' = add_orphans (orphan_row k s h hh) sf mf fs mo (ms @ [new_row k s h hh fs m])"
    by (auto simp: process_template_row_def Let_def split: list.splits)
  moreover from add_orphans_appends [of k s h hh sf mf fs mo "ms @ [new_row k s h hh fs m]"]
  obtain new where "add_orphans (orphan_row k s h hh) sf mf fs mo (ms @ [new_row k s h hh fs m])
      = (ms @ [new_row k s h hh fs m]) @ new" "list_all (\<lambda>m. Hash m = PStr hh) new" by blast
  moreover have "Hash (new_row k s h hh fs m) = PStr hh" by (simp add: new_row_def Let_def)
  ultimately show ?thesis
    by (intro exI [of _ "new_row k s h hh fs m # new"]) simp
qed

lemma process_template_rows_appends:
  assumes "process_template_rows k s h hh fs hm rows ms = Inr ms'"
  shows "\<exists>new. ms' = ms @ new \<and> list_all (\<lambda>m. Hash m = PStr hh) new"
  using assms
proof (induction rows arbitrary: ms)
  case Nil
  then show ?case by simp
next
  case (Cons m rows)
  from Cons.prems obtain ms1 where one: "process_template_row k s h hh fs hm m ms = Inr ms1"
    and rest: "process_template_rows k s h hh fs hm rows ms1 = Inr ms'"
    by (auto split: sum.splits)
  from process_template_row_appends [OF one] obtain n1
    where n1: "ms1 = ms @ n1" "list_all (\<lambda>m. Hash m = PStr hh) n1" by blast
  from Cons.IH [OF rest] obtain n2
    where n2: "ms' = ms1 @ n2" "list_all (\<lambda>m. Hash m = PStr hh) n2" by blast
  from n1 n2 show ?case by (intro exI [of _ "n1 @ n2"]) simp
qed

lemma process_source_headers_appends:
  assumes "process_source_headers ex hm shs ms = Inr ms'"
  shows "\<exists>new. ms' = ms @ new \<and> list_all (\<lambda>m. Hash m \<notin> set ex) new"
  using assms
proof (induction shs arbitrary: ms)
  case Nil
  then show ?case by simp
next
  case (Cons sh shs)
  obtain k s h hh where sh: "sh = (k, s, h, hh)" by (cases sh) auto
  show ?case
  proof (cases "PStr hh \<notin> set ex")
    case False
    with Cons sh show ?thesis by simp
  next
    case True
    with Cons.prems sh obtain ms1
      where one: "process_template_rows k s h hh (split_on (CHR '';'') h) hm hm ms = Inr ms1"
        and rest: "process_source_headers ex hm shs ms1 = Inr ms'"
      by (auto split: sum.splits)
    from process_template_rows_appends [OF one] obtain n1
      where n1: "ms1 = ms @ n1" "list_all (\<lambda>m. Hash m = PStr hh) n1" by blast
    from Cons.IH [OF rest] obtain n2
      where n2: "ms' = ms1 @ n2" "list_all (\<lambda>m. Hash m \<notin> set ex) n2" by blast
    from n1(2) True have "list_all (\<lambda>m. Hash m \<notin> set ex) n1"
      by (auto simp: list_all_iff)
    with n1 n2 show ?thesis by (intro exI [of _ "n1 @ n2"]) simp
  qed
qed

lemma process_groups_appends:
  assumes "process_groups template ex shs gs ms = Inr ms'"
  shows "\<exists>new. ms' = ms @ new \<and> list_all (\<lambda>m. Hash m \<notin> set ex) new"
  using assms
proof (induction gs arbitrary: ms)
  case Nil
  then show ?case by simp
next
  case (Cons g gs)
  from Cons.prems obtain hm ms1
    where one: "process_source_headers ex hm (filter (\<lambda>h. (fst h, fst (snd h)) = g) shs) ms = Inr ms1"
      and rest: "process_groups template ex shs gs ms1 = Inr ms'"
    by (auto split: sum.splits)
  from process_source_headers_appends [OF one] obtain n1
    where n1: "ms1 = ms @ n1" "list_all (\<lambda>m. Hash m \<notin> set ex) n1" by blast
  from Cons.IH [OF rest] obtain n2
    where n2: "ms' = ms1 @ n2" "list_all (\<lambda>m. Hash m \<notin> set ex) n2" by blast
  from n1 n2 show ?case by (intro exI [of _ "n1 @ n2"]) simp
qed

lemma updated_headers_appends:
  assumes "get_cvm_updated_headers hs fs template existing files = Inr result"
  shows "\<exists>new. result = existing @ new \<and> list_all (\<lambda>m. Hash m \<notin> set (map Hash existing)) new"
proof -
  from assms obtain shs gs
    where "process_groups template (map Hash existing) shs gs existing = Inr result"
    by (auto simp: get_cvm_updated_headers_def updated_headers_def Let_def
        split: sum.splits if_splits)
  from process_groups_appends [OF this] show ?thesis .
qed

text \<open>
  C8: the hash that \<open>_get_cvm_file_metadata\<close> returns is \<open>hash_string\<close> of
  \<open>kind;sub_kind;line\<close> and of nothing else, so two files with the same kind, sub-kind
  and header line get the same hash.  When \<open>_get_cvm_updated_headers\<close> returns, its
  result is the rows of the headers file, unchanged and in place, followed by new
  rows, and no new row carries a hash that the headers file already held: the rows of
  an existing hash are the same before and after.
\<close>

theorem C8_fingerprint_and_replay_stable:
  assumes "get_cvm_file_metadata hs fs f1 = Inr (k, s, l, h1)"
    and "get_cvm_file_metadata hs fs f2 = Inr (k, s, l, h2)"
    and "get_cvm_updated_headers hs fs template existing files = Inr result"
  shows "h1 = hs (join '';'' [k, s, l]) \<and> h1 = h2
       \<and> (\<exists>new. result = existing @ new
                \<and> list_all (\<lambda>m. Hash m \<notin> set (map Hash existing)) new)
       \<and> (\<forall>h \<in> set (map Hash existing).
             filter (\<lambda>m. Hash m = h) result = filter (\<lambda>m. Hash m = h) existing)"
proof -
  from updated_headers_appends [OF assms(3)] obtain new
    where new: "result = existing @ new" "list_all (\<lambda>m. Hash m \<notin> set (map Hash existing)) new"
    by blast
  have "filter (\<lambda>m. Hash m = h) new = []" if "h \<in> set (map Hash existing)" for h
    using new(2) that by (auto simp: list_all_iff filter_empty_conv)
  with new metadata_hash [OF assms(1)] metadata_hash [OF assms(2)] show ?thesis by auto
qed


lemma sample_metadata:
  "get_cvm_file_metadata sample_hash sample_fs ''/history/if_register.cad_fi.csv''
   = Inr (''IF_REGISTER'', ''CAD_FI'', ''CNPJ_FUNDO;DENOM_SOCIAL;SIT'',
          ''IF_REGISTER;CAD_FI;CNPJ_FUNDO;DENOM_SOCIAL;SIT'')"
  by (simp add: get_cvm_file_metadata_def sample_hash_def sample_fs_def readline_def
      is_newline_def
      upper_def upper_char_def lower_def lower_char_def Let_def)

lemma sample_headers_replayed:
  "get_cvm_updated_headers sample_hash sample_fs sample_template [sample_mapping]
     [''/history/if_register.cad_fi.csv'']
   = Inr [sample_mapping,
      \<lparr>Order = 1, Target_Field = PStr ''CNPJ'',
         Source_Field = PStr ''CNPJ_FUNDO'', Transformation1 = PNone,
         Transformation2 = PNone, Transformation3 = PNone,
         Converter = PStr ''as_string_id'', Kind = PStr ''IF_REGISTER'',
         Sub_Kind = PStr ''CAD_FI'',
         Header = PStr ''CNPJ_FUNDO;DENOM_SOCIAL;SIT'',
         Hash = PStr ''IF_REGISTER;CAD_FI;CNPJ_FUNDO;DENOM_SOCIAL;SIT'',
         Is_New = PBool True\<rparr>,
      \<lparr>Order = 3, Target_Field = PNone, Source_Field = PStr ''SIT'',
         Transformation1 = PNone, Transformation2 = PNone,
         Transformation3 = PNone, Converter = PNone,
         Kind = PStr ''IF_REGISTER'', Sub_Kind = PStr ''CAD_FI'',
         Header = PStr ''CNPJ_FUNDO;DENOM_SOCIAL;SIT'',
         Hash = PStr ''IF_REGISTER;CAD_FI;CNPJ_FUNDO;DENOM_SOCIAL;SIT'',
         Is_New = PBool True\<rparr>,
      \<lparr>Order = 2, Target_Field = PStr ''NAME'',
         Source_Field = PStr ''DENOM_SOCIAL'', Transformation1 = PNone,
         Transformation2 = PNone, Transformation3 = PNone,
         Converter = PStr ''as_string'', Kind = PStr ''IF_REGISTER'',
         Sub_Kind = PStr ''CAD_FI'',
         Header = PStr ''CNPJ_FUNDO;DENOM_SOCIAL;SIT'',
         Hash = PStr ''IF_REGISTER;CAD_FI;CNPJ_FUNDO;DENOM_SOCIAL;SIT'',
         Is_New = PBool True\<rparr>,
      \<lparr>Order = 3, Target_Field = PNone, Source_Field = PStr ''SIT'',
         Transformation1 = PNone, Transformation2 = PNone,
         Transformation3 = PNone, Converter = PNone,
         Kind = PStr ''IF_REGISTER'', Sub_Kind = PStr ''CAD_FI'',
         Header = PStr ''CNPJ_FUNDO;DENOM_SOCIAL;SIT'',
         Hash = PStr ''IF_REGISTER;CAD_FI;CNPJ_FUNDO;DENOM_SOCIAL;SIT'',
         Is_New = PBool True\<rparr>]"
  by (simp add: get_cvm_updated_headers_def updated_headers_def sample_metadata
      sample_template_def sample_mapping_def header_mapping_of_def process_template_row_def
      new_row_def orphan_row_def Let_def image_iff)

theorem C8_fingerprint_and_replay_stable_witness:
  "(\<exists>new. get_cvm_updated_headers sample_hash sample_fs sample_template [sample_mapping]
            [''/history/if_register.cad_fi.csv''] = Inr (sample_mapping # new)
          \<and> length new = 4
          \<and> filter (\<lambda>m. Hash m = Hash sample_mapping) (sample_mapping # new) = [sample_mapping])
   \<and> sample_hash ''IF_REGISTER;CAD_FI;CNPJ_FUNDO;DENOM_SOCIAL;SIT''
       = ''IF_REGISTER;CAD_FI;CNPJ_FUNDO;DENOM_SOCIAL;SIT''"
  using C8_fingerprint_and_replay_stable
    [OF sample_metadata sample_metadata sample_headers_replayed]
  by (simp add: sample_headers_replayed)

text \<open>
  C2 on a template of two rows, a headers file that knows one older header, and a
  registration file whose header has one field (\<open>SIT\<close>) that the template does not
  know: the orphan check runs once for each template row, and the unmapped row for
  \<open>SIT\<close> is appended twice under the new hash.
\<close>

theorem C2_orphan_row_repeated:
  "get_cvm_updated_headers sample_hash sample_fs sample_template [sample_mapping]
     [''/history/if_register.cad_fi.csv'']
   = Inr [sample_mapping,
      \<lparr>Order = 1, Target_Field = PStr ''CNPJ'',
         Source_Field = PStr ''CNPJ_FUNDO'', Transformation1 = PNone,
         Transformation2 = PNone, Transformation3 = PNone,
         Converter = PStr ''as_string_id'', Kind = PStr ''IF_REGISTER'',
         Sub_Kind = PStr ''CAD_FI'',
         Header = PStr ''CNPJ_FUNDO;DENOM_SOCIAL;SIT'',
         Hash = PStr ''IF_REGISTER;CAD_FI;CNPJ_FUNDO;DENOM_SOCIAL;SIT'',
         Is_New = PBool True\<rparr>,
      \<lparr>Order = 3, Target_Field = PNone, Source_Field = PStr ''SIT'',
         Transformation1 = PNone, Transformation2 = PNone,
         Transformation3 = PNone, Converter = PNone,
         Kind = PStr ''IF_REGISTER'', Sub_Kind = PStr ''CAD_FI'',
         Header = PStr ''CNPJ_FUNDO;DENOM_SOCIAL;SIT'',
         Hash = PStr ''IF_REGISTER;CAD_FI;CNPJ_FUNDO;DENOM_SOCIAL;SIT'',
         Is_New = PBool True\<rparr>,
      \<lparr>Order = 2, Target_Field = PStr ''NAME'',
         Source_Field = PStr ''DENOM_SOCIAL'', Transformation1 = PNone,
         Transformation2 = PNone, Transformation3 = PNone,
         Converter = PStr ''as_string'', Kind = PStr ''IF_REGISTER'',
         Sub_Kind = PStr ''CAD_FI'',
         Header = PStr ''CNPJ_FUNDO;DENOM_SOCIAL;SIT'',
         Hash = PStr ''IF_REGISTER;CAD_FI;CNPJ_FUNDO;DENOM_SOCIAL;SIT'',
         Is_New = PBool True\<rparr>,
      \<lparr>Order = 3, Target_Field = PNone, Source_Field = PStr ''SIT'',
         Transformation1 = PNone, Transformation2 = PNone,
         Transformation3 = PNone, Converter = PNone,
         Kind = PStr ''IF_REGISTER'', Sub_Kind = PStr ''CAD_FI'',
         Header = PStr ''CNPJ_FUNDO;DENOM_SOCIAL;SIT'',
         Hash = PStr ''IF_REGISTER;CAD_FI;CNPJ_FUNDO;DENOM_SOCIAL;SIT'',
         Is_New = PBool True\<rparr>]
   \<and> length (filter (\<lambda>m. Hash m = PStr ''IF_REGISTER;CAD_FI;CNPJ_FUNDO;DENOM_SOCIAL;SIT''
                        \<and> Target_Field m = PNone \<and> Source_Field m = PStr ''SIT'')
       [sample_mapping,
      \<lparr>Order = 1, Target_Field = PStr ''CNPJ'',
         Source_Field = PStr ''CNPJ_FUNDO'', Transformation1 = PNone,
         Transformation2 = PNone, Transformation3 = PNone,
         Converter = PStr ''as_string_id'', Kind = PStr ''IF_REGISTER'',
         Sub_Kind = PStr ''CAD_FI'',
         Header = PStr ''CNPJ_FUNDO;DENOM_SOCIAL;SIT'',
         Hash = PStr ''IF_REGISTER;CAD_FI;CNPJ_FUNDO;DENOM_SOCIAL;SIT'',
         Is_New = PBool True\<rparr>,
      \<lparr>Order = 3, Target_Field = PNone, Source_Field = PStr ''SIT'',
         Transformation1 = PNone, Transformation2 = PNone,
         Transformation3 = PNone, Converter = PNone,
         Kind = PStr ''IF_REGISTER'', Sub_Kind = PStr ''CAD_FI'',
         Header = PStr ''CNPJ_FUNDO;DENOM_SOCIAL;SIT'',
         Hash = PStr ''IF_REGISTER;CAD_FI;CNPJ_FUNDO;DENOM_SOCIAL;SIT'',
         Is_New = PBool True\<rparr>,
      \<lparr>Order = 2, Target_Field = PStr ''NAME'',
         Source_Field = PStr ''DENOM_SOCIAL'', Transformation1 = PNone,
         Transformation2 = PNone, Transformation3 = PNone,
         Converter = PStr ''as_string'', Kind = PStr ''IF_REGISTER'',
         Sub_Kind = PStr ''CAD_FI'',
         Header = PStr ''CNPJ_FUNDO;DENOM_SOCIAL;SIT'',
         Hash = PStr ''IF_REGISTER;CAD_FI;CNPJ_FUNDO;DENOM_SOCIAL;SIT'',
         Is_New = PBool True\<rparr>,
      \<lparr>Order = 3, Target_Field = PNone, Source_Field = PStr ''SIT'',
         Transformation1 = PNone, Transformation2 = PNone,
         Transformation3 = PNone, Converter = PNone,
         Kind = PStr ''IF_REGISTER'', Sub_Kind = PStr ''CAD_FI'',
         Header = PStr ''CNPJ_FUNDO;DENOM_SOCIAL;SIT'',
         Hash = PStr ''IF_REGISTER;CAD_FI;CNPJ_FUNDO;DENOM_SOCIAL;SIT'',
         Is_New = PBool True\<rparr>]) = 2"
  using sample_headers_replayed by (simp add: sample_mapping_def)

subsection \<open>The index helper\<close>

text \<open>
  C9: for an index at or beyond the end of the list, the default \<open>z\<close> comes back only
  when it is truthy; a falsy default (the empty string, 0, False, None) is replaced by
  None, so the directory-listing caller that passes \<open>''\<close> gets None.
\<close>

theorem C9_default_only_when_truthy:
  assumes "int (length x) \<le> y"
  shows "get_value_by_index_if_exists x y z = Inr (if truthy z then z else PNone)
       \<and> get_value_by_index_if_exists x y (PStr []) = Inr PNone
       \<and> get_value_by_index_if_exists x y (PInt 0) = Inr PNone"
  using assms by (simp add: get_value_by_index_if_exists_def py_or_def)

theorem C9_default_only_when_truthy_witness:
  "get_value_by_index_if_exists [PStr ''a''] 1 (PStr ''dflt'') = Inr (PStr ''dflt'')
   \<and> get_value_by_index_if_exists [PStr ''a''] 1 (PStr []) = Inr PNone
   \<and> get_value_by_index_if_exists [PStr ''a''] 1 (PInt 0) = Inr PNone"
  using C9_default_only_when_truthy [of "[PStr ''a'']" 1 "PStr ''dflt''"] by simp

end
